theory Spec2Isabelle
  imports Main "HOL-Library.Sublist" "HOL-Library.Multiset" "HOL-Library.List_Lexorder"
    "HOL-Library.Char_ord" "HOL-Library.Product_Lexorder"
begin

section \<open>The WooCommerce website analyzer\<close>

text \<open>
  A shallow embedding of \<^verbatim>\<open>Scripts/extract_woo_plugins_from_website.py\<close>: the class
  \<^verbatim>\<open>WooCommerceAnalyzer\<close> with its page fetcher, link extractor, signature detectors,
  crawl driver and report generator.

  Python text is a \<^typ>\<open>string\<close>, one \<^typ>\<open>char\<close> per character, which covers the
  characters below code point 256. The decorative glyphs in front of the report headings
  lie beyond that range; they are kept as the bytes the source file gives them.
\<close>

subsection \<open>Python string operations\<close>

text \<open>\<^verbatim>\<open>s.startswith(p)\<close>\<close>

fun startswith :: "string \<Rightarrow> string \<Rightarrow> bool" where
  "startswith s [] = True"
| "startswith [] (p # ps) = False"
| "startswith (c # cs) (p # ps) = (c = p \<and> startswith cs ps)"

text \<open>\<^verbatim>\<open>sub in s\<close>\<close>

fun str_in :: "string \<Rightarrow> string \<Rightarrow> bool" where
  "str_in sub [] = (sub = [])"
| "str_in sub (c # cs) = (startswith (c # cs) sub \<or> str_in sub cs)"

text \<open>\<^verbatim>\<open>s.replace(old, new)\<close>: every non-overlapping occurrence, from the left.\<close>

function replace :: "string \<Rightarrow> string \<Rightarrow> string \<Rightarrow> string" where
  "replace [] old new = (if old = [] then new else [])"
| "replace (c # cs) old new =
     (if old = [] then new @ c # replace cs old new
      else if startswith (c # cs) old then new @ replace (drop (length old) (c # cs)) old new
      else c # replace cs old new)"
  by pat_completeness auto
termination
  by (relation "measure (\<lambda>(s, old, new). length s)") (auto simp: neq_Nil_conv)

text \<open>\<^verbatim>\<open>c.isspace()\<close> and \<^verbatim>\<open>s.strip()\<close>, for characters below code point 256.\<close>

definition isspace :: "char \<Rightarrow> bool" where
  "isspace c = (of_char c \<in> {9, 10, 11, 12, 13, 28, 29, 30, 31, 32, 133, 160 :: nat})"

definition strip :: "string \<Rightarrow> string" where
  "strip s = rev (dropWhile isspace (rev (dropWhile isspace s)))"

text \<open>\<^verbatim>\<open>s.lower()\<close>, for characters below code point 256.\<close>

definition lower_char :: "char \<Rightarrow> char" where
  "lower_char c =
     (let n = of_char c :: nat
      in if (65 \<le> n \<and> n \<le> 90) \<or> (192 \<le> n \<and> n \<le> 222 \<and> n \<noteq> 215) then char_of (n + 32) else c)"

definition lower :: "string \<Rightarrow> string" where
  "lower s = map lower_char s"

text \<open>\<^verbatim>\<open>str(n)\<close> for an integer.\<close>

definition digit :: "nat \<Rightarrow> char" where
  "digit d = ''0123456789'' ! d"

function str_nat :: "nat \<Rightarrow> string" where
  "str_nat n = (if n < 10 then [digit n] else str_nat (n div 10) @ [digit (n mod 10)])"
  by pat_completeness auto
termination
  by (relation "measure id") auto

definition str_int :: "int \<Rightarrow> string" where
  "str_int i = (if i < 0 then ''-'' @ str_nat (nat (- i)) else str_nat (nat i))"

text \<open>\<^verbatim>\<open>xs[:k]\<close>: a negative bound counts from the end.\<close>

definition slice_to :: "'a list \<Rightarrow> int \<Rightarrow> 'a list" where
  "slice_to xs k = (if k < 0 then take (nat (int (length xs) + k)) xs else take (nat k) xs)"

subsection \<open>Parsed documents\<close>

text \<open>
  A parsed page as the analyzer reads it through BeautifulSoup: the tags in document order
  and the text nodes in document order. A tag carries its name, its single-valued
  attributes (a dictionary: the first pair of a key counts), its \<^verbatim>\<open>class\<close> attribute as
  the parser splits it, and what \<^verbatim>\<open>.text\<close> and \<^verbatim>\<open>.string\<close> return for it. The other
  attributes that the parser splits into lists (\<^verbatim>\<open>rel\<close>, \<^verbatim>\<open>headers\<close> and the like) are
  left out: the analyzer reads \<^verbatim>\<open>href\<close>, \<^verbatim>\<open>src\<close>, \<^verbatim>\<open>id\<close>, \<^verbatim>\<open>name\<close>, \<^verbatim>\<open>content\<close>,
  \<^verbatim>\<open>type\<close>, \<^verbatim>\<open>class\<close> and the attributes whose name starts with \<^verbatim>\<open>data-\<close>.
\<close>

record tag =
  tag_name :: string
  tag_attrs :: "(string \<times> string) list"
  tag_class :: "string list option"
  tag_text :: string
  tag_string :: "string option"

record document =
  tags :: "tag list"
  strings :: "string list"

text \<open>\<^verbatim>\<open>tag.get(a)\<close>\<close>

definition get_attr :: "tag \<Rightarrow> string \<Rightarrow> string option" where
  "get_attr t a = map_of (tag_attrs t) a"

text \<open>\<^verbatim>\<open>soup.find_all(n)\<close> and \<^verbatim>\<open>soup.find_all(n, a=True)\<close>\<close>

definition find_all :: "document \<Rightarrow> string \<Rightarrow> tag list" where
  "find_all soup n = filter (\<lambda>t. tag_name t = n) (tags soup)"

definition find_all_with :: "document \<Rightarrow> string \<Rightarrow> string \<Rightarrow> tag list" where
  "find_all_with soup n a = filter (\<lambda>t. get_attr t a \<noteq> None) (find_all soup n)"

text \<open>The value of attribute \<open>a\<close> on each tag of a list that has it.\<close>

definition attr_values :: "string \<Rightarrow> tag list \<Rightarrow> string list" where
  "attr_values a ts = List.map_filter (\<lambda>t. get_attr t a) ts"

text \<open>
  Matching a tag against \<^verbatim>\<open>{"class": c}\<close>: one of the classes is \<open>c\<close>, or the classes
  joined by spaces are \<open>c\<close>.
\<close>

fun join_sp :: "string list \<Rightarrow> string" where
  "join_sp [] = []"
| "join_sp [c] = c"
| "join_sp (c # cs) = c @ '' '' @ join_sp cs"

definition has_class :: "string \<Rightarrow> tag \<Rightarrow> bool" where
  "has_class c t = (case tag_class t of None \<Rightarrow> False | Some cs \<Rightarrow> c \<in> set cs \<or> join_sp cs = c)"

subsection \<open>The network and the libraries\<close>

text \<open>
  What \<^verbatim>\<open>session.get\<close> gives: a response with its status code and the parsed body
  (\<open>None\<close> when the parser raises), or an exception.
\<close>

datatype response = Response int "document option" | RequestException

datatype error = ValueError | IndexError

text \<open>
  The collaborators of the analyzer, none of them code of this program:
  \<^item> \<open>http_get n url\<close>: the outcome of the request number \<open>n\<close> of the run, sent to \<open>url\<close>;
  \<^item> \<open>urljoin\<close> and \<open>urlparse_netloc\<close> of \<^verbatim>\<open>urllib.parse\<close>, \<open>None\<close> where they raise
    \<^verbatim>\<open>ValueError\<close> (as both do on \<^verbatim>\<open>http://[\<close>);
  \<^item> \<open>re_search p s\<close>: \<open>None\<close> without a match, else the function from group numbers to
    groups of the first match; \<open>re_match\<close> and \<open>re_findall\<close> (the first group of every
    match) likewise;
  \<^item> \<open>json_str s\<close>: \<^verbatim>\<open>str(json.loads(s))\<close>, \<open>None\<close> where it raises;
  \<^item> \<open>iter_str\<close> and \<open>iter_pair\<close>: the order in which Python iterates over a set.
\<close>

record env =
  http_get :: "nat \<Rightarrow> string \<Rightarrow> response"
  urljoin :: "string \<Rightarrow> string \<Rightarrow> string option"
  urlparse_netloc :: "string \<Rightarrow> string option"
  re_search :: "string \<Rightarrow> string \<Rightarrow> (nat \<Rightarrow> string) option"
  re_match :: "string \<Rightarrow> string \<Rightarrow> bool"
  re_findall :: "string \<Rightarrow> string \<Rightarrow> string list"
  json_str :: "string \<Rightarrow> string option"
  iter_str :: "string set \<Rightarrow> string list"
  iter_pair :: "(string \<times> string) set \<Rightarrow> (string \<times> string) list"


subsection \<open>The analyzer's state\<close>

text \<open>
  The fields of \<^verbatim>\<open>WooCommerceAnalyzer\<close>. \<open>request_log\<close> is not a field of the Python
  object: it lists the URLs handed to \<^verbatim>\<open>session.get\<close>, in order.
\<close>

record analyzer =
  base_url :: string
  max_pages :: int
  verbose :: bool
  visited_urls :: "string set"
  plugins_detected :: "(string \<times> string) set"
  themes_detected :: "(string \<times> string) set"
  main_theme :: "string option"
  child_theme :: "string option"
  custom_post_types :: "string set"
  shortcodes :: "string set"
  rest_endpoints :: "string set"
  custom_data_attributes :: "string set"
  ajax_calls :: "string set"
  gutenberg_blocks :: "string set"
  custom_code_indicators :: "string list"
  css_classes :: "string set"
  request_log :: "string list"

definition init :: "string \<Rightarrow> int \<Rightarrow> bool \<Rightarrow> analyzer" where
  "init url pages verb =
     \<lparr>base_url = url, max_pages = pages, verbose = verb, visited_urls = {},
      plugins_detected = {}, themes_detected = {}, main_theme = None, child_theme = None,
      custom_post_types = {}, shortcodes = {}, rest_endpoints = {},
      custom_data_attributes = {}, ajax_calls = {}, gutenberg_blocks = {},
      custom_code_indicators = [], css_classes = {}, request_log = []\<rparr>"

definition plugin_path_patterns :: "string list" where
  "plugin_path_patterns =
     [''/wp-content/plugins/([^/]+)/'', ''/app/plugins/([^/]+)/'',
      ''/plugins/([^/]+)/'', ''/wp/plugins/([^/]+)/'']"

definition theme_path_patterns :: "string list" where
  "theme_path_patterns =
     [''/wp-content/themes/([^/]+)/'', ''/app/themes/([^/]+)/'',
      ''/themes/([^/]+)/'', ''/wp/themes/([^/]+)/'']"

definition known_plugins :: "(string \<times> string) list" where
  "known_plugins =
     [(''woocommerce'', ''WooCommerce - Core eCommerce functionality''),
      (''jetpack'', ''Jetpack - Security, performance, and marketing tools''),
      (''gravityforms'', ''Gravity Forms - Advanced forms and submissions''),
      (''elementor'', ''Elementor - Page builder''),
      (''js_composer'', ''WPBakery Page Builder (formerly Visual Composer)''),
      (''wp-super-cache'', ''WP Super Cache - Caching plugin''),
      (''w3-total-cache'', ''W3 Total Cache - Performance optimization''),
      (''akismet'', ''Akismet - Spam protection''),
      (''contact-form-7'', ''Contact Form 7 - Form handling''),
      (''wordpress-seo'', ''Yoast SEO - Search engine optimization''),
      (''revslider'', ''Revolution Slider - Slider plugin''),
      (''wc-product-bundles'', ''WooCommerce Product Bundles - Create bundles and composite products''),
      (''woocommerce-gateway-stripe'', ''WooCommerce Stripe Gateway - Payment processing''),
      (''woocommerce-gateway-paypal-express-checkout'', ''WooCommerce PayPal Checkout Gateway''),
      (''wc-ajax-product-filter'', ''AJAX Product Filters for WooCommerce''),
      (''wc-quantity-plus-minus-buttons'', ''Quantity Plus Minus Buttons for WooCommerce''),
      (''woocommerce-composite-products'', ''WooCommerce Composite Products''),
      (''woocommerce-bookings'', ''WooCommerce Bookings - Booking system''),
      (''woocommerce-subscriptions'', ''WooCommerce Subscriptions - Subscription functionality''),
      (''woocommerce-product-addons'', ''WooCommerce Product Add-ons''),
      (''woocommerce-photography'', ''WooCommerce Photography - Photo selling features''),
      (''woocommerce-memberships'', ''WooCommerce Memberships - Membership functionality''),
      (''klaviyo'', ''Klaviyo - Email marketing integration''),
      (''mailchimp-for-woocommerce'', ''Mailchimp for WooCommerce - Email marketing''),
      (''woocommerce-shipstation-integration'', ''WooCommerce ShipStation Integration''),
      (''woocommerce-square'', ''WooCommerce Square - Payment and POS integration''),
      (''ups-woocommerce-shipping'', ''UPS WooCommerce Shipping - Shipping integration''),
      (''woocommerce-gateway-authorize-net-cim'', ''Authorize.net Payment Gateway''),
      (''woocommerce-advanced-shipping'', ''WooCommerce Advanced Shipping - Complex shipping rules'')]"

subsection \<open>Page fetcher\<close>

text \<open>
  \<^verbatim>\<open>fetch_page\<close>: a visited URL is skipped without a request. Otherwise the request is
  sent; \<^verbatim>\<open>visited_urls.add(url)\<close> is the statement after \<^verbatim>\<open>session.get\<close> inside the
  \<^verbatim>\<open>try\<close>, so it runs when a response came back and not when the request raised.
\<close>

definition fetch_page :: "env \<Rightarrow> string \<Rightarrow> analyzer \<Rightarrow> document option \<times> analyzer" where
  "fetch_page E url s =
     (if url \<in> visited_urls s then (None, s)
      else (case http_get E (length (request_log s)) url of
              RequestException \<Rightarrow> (None, s\<lparr>request_log := request_log s @ [url]\<rparr>)
            | Response status body \<Rightarrow>
                (let s' = s\<lparr>request_log := request_log s @ [url],
                            visited_urls := insert url (visited_urls s)\<rparr>
                 in if status \<noteq> 200 then (None, s') else (body, s'))))"

subsection \<open>Link extractor\<close>

text \<open>
  The loop of \<^verbatim>\<open>extract_links\<close> over the \<^verbatim>\<open>href\<close> values, with \<open>acc\<close> the list
  \<^verbatim>\<open>internal_links\<close>. An exception of \<^verbatim>\<open>urljoin\<close> or \<^verbatim>\<open>urlparse\<close> leaves the function.
\<close>

fun links_loop :: "env \<Rightarrow> string \<Rightarrow> string \<Rightarrow> string set \<Rightarrow> string list \<Rightarrow> string list
    \<Rightarrow> error + string list" where
  "links_loop E domain current_url visited [] acc = Inr acc"
| "links_loop E domain current_url visited (href # hrefs) acc =
     (case urljoin E current_url href of
        None \<Rightarrow> Inl ValueError
      | Some full_url \<Rightarrow>
          (case urlparse_netloc E full_url of
             None \<Rightarrow> Inl ValueError
           | Some netloc \<Rightarrow>
               if netloc \<noteq> domain \<or> startswith href ''#''
                  \<or> \<not> (startswith full_url ''http://'' \<or> startswith full_url ''https://'')
               then links_loop E domain current_url visited hrefs acc
               else if full_url \<in> visited
               then links_loop E domain current_url visited hrefs acc
               else links_loop E domain current_url visited hrefs (acc @ [full_url])))"

definition extract_links :: "env \<Rightarrow> document \<Rightarrow> string \<Rightarrow> analyzer \<Rightarrow> error + string list" where
  "extract_links E soup current_url s =
     (case urlparse_netloc E (base_url s) of
        None \<Rightarrow> Inl ValueError
      | Some domain \<Rightarrow>
          links_loop E domain current_url (visited_urls s)
            (attr_values ''href'' (find_all_with soup ''a'' ''href'')) [])"

subsection \<open>Signature detectors\<close>

text \<open>
  A loop over a list of patterns that stops at the first match (\<^verbatim>\<open>break\<close>): the first
  group of the first pattern that matches.
\<close>

fun first_match :: "env \<Rightarrow> string list \<Rightarrow> string \<Rightarrow> string option" where
  "first_match E [] asset_url = None"
| "first_match E (pattern # patterns) asset_url =
     (case re_search E pattern asset_url of
        Some m \<Rightarrow> Some (m 1)
      | None \<Rightarrow> first_match E patterns asset_url)"

text \<open>\<^verbatim>\<open>_check_asset_for_plugin\<close>: its loop over the plugin patterns, then over the theme patterns.\<close>

definition check_plugin_paths :: "env \<Rightarrow> string \<Rightarrow> analyzer \<Rightarrow> analyzer" where
  "check_plugin_paths E asset_url s =
     (case first_match E plugin_path_patterns asset_url of
        None \<Rightarrow> s
      | Some plugin_name \<Rightarrow>
          (let s' = s\<lparr>plugins_detected := insert (plugin_name, asset_url) (plugins_detected s)\<rparr>
           in if str_in ''pop'' (lower plugin_name) \<or> str_in ''sign'' (lower plugin_name)
              then s'\<lparr>custom_code_indicators :=
                        custom_code_indicators s' @ [''Custom Plugin: '' @ plugin_name]\<rparr>
              else s'))"

definition inferred_evidence :: string where
  "inferred_evidence = ''Parent theme detected via child theme reference''"

definition check_theme_paths :: "env \<Rightarrow> string \<Rightarrow> analyzer \<Rightarrow> analyzer" where
  "check_theme_paths E asset_url s =
     (case first_match E theme_path_patterns asset_url of
        None \<Rightarrow> s
      | Some theme_name \<Rightarrow>
          (let s' = s\<lparr>themes_detected := insert (theme_name, asset_url) (themes_detected s)\<rparr>
           in if str_in ''-child'' theme_name
              then (let parent_theme = replace theme_name ''-child'' []
                    in if parent_theme \<notin> fst ` themes_detected s'
                       then s'\<lparr>themes_detected :=
                                 insert (parent_theme, inferred_evidence) (themes_detected s')\<rparr>
                       else s')
              else s'))"

definition check_asset_for_plugin :: "env \<Rightarrow> string \<Rightarrow> analyzer \<Rightarrow> analyzer" where
  "check_asset_for_plugin E asset_url s =
     check_theme_paths E asset_url (check_plugin_paths E asset_url s)"

text \<open>The bodies of the loops of \<^verbatim>\<open>detect_plugins_from_html\<close>, in the order of the source.\<close>

definition script_step :: "env \<Rightarrow> tag \<Rightarrow> analyzer \<Rightarrow> analyzer" where
  "script_step E script s =
     (case get_attr script ''src'' of
        None \<Rightarrow> s
      | Some src \<Rightarrow>
          (let s1 = check_asset_for_plugin E src s
           in case get_attr script ''id'' of
                None \<Rightarrow> s1
              | Some script_id \<Rightarrow>
                  if script_id \<noteq> [] \<and> str_in ''-js'' script_id
                  then (let potential_plugin = replace script_id ''-js'' []
                        in if map_of known_plugins potential_plugin \<noteq> None
                           then s1\<lparr>plugins_detected :=
                                     insert (potential_plugin, ''Script ID: '' @ script_id)
                                       (plugins_detected s1)\<rparr>
                           else s1)
                  else s1))"

definition link_step :: "env \<Rightarrow> tag \<Rightarrow> analyzer \<Rightarrow> analyzer" where
  "link_step E link s =
     (case get_attr link ''href'' of
        None \<Rightarrow> s
      | Some href \<Rightarrow>
          (let s1 = check_asset_for_plugin E href s
           in case get_attr link ''id'' of
                None \<Rightarrow> s1
              | Some link_id \<Rightarrow>
                  if link_id \<noteq> [] \<and> str_in ''-css'' link_id
                  then (let potential_plugin = replace link_id ''-css'' []
                        in if map_of known_plugins potential_plugin \<noteq> None
                           then s1\<lparr>plugins_detected :=
                                     insert (potential_plugin, ''Link ID: '' @ link_id)
                                       (plugins_detected s1)\<rparr>
                           else s1)
                  else s1))"

definition plugin_patterns :: "string list" where
  "plugin_patterns = [''^wc-'', ''^yith-'', ''^elementor-'', ''^wp-block-'', ''^et_'', ''^fl-'']"

definition pattern_to_plugin :: "(string \<times> string) list" where
  "pattern_to_plugin =
     [(''^wc-'', ''WooCommerce''), (''^yith-'', ''YITH Plugin''), (''^elementor-'', ''Elementor''),
      (''^wp-block-'', ''Gutenberg''), (''^et_'', ''Divi''), (''^fl-'', ''Beaver Builder'')]"

definition add_potential_plugin_from_pattern :: "string \<Rightarrow> string \<Rightarrow> analyzer \<Rightarrow> analyzer" where
  "add_potential_plugin_from_pattern pattern css_class s =
     (case map_of pattern_to_plugin pattern of
        None \<Rightarrow> s
      | Some plugin \<Rightarrow>
          s\<lparr>plugins_detected := insert (plugin, ''CSS Class: '' @ css_class) (plugins_detected s)\<rparr>)"

definition css_class_step :: "env \<Rightarrow> string \<Rightarrow> analyzer \<Rightarrow> analyzer" where
  "css_class_step E css_class s =
     fold (\<lambda>pattern s'. if re_match E pattern css_class
                          then add_potential_plugin_from_pattern pattern css_class s' else s')
       plugin_patterns (s\<lparr>css_classes := insert css_class (css_classes s)\<rparr>)"

definition class_tag_step :: "env \<Rightarrow> tag \<Rightarrow> analyzer \<Rightarrow> analyzer" where
  "class_tag_step E t s =
     fold (css_class_step E) (case tag_class t of None \<Rightarrow> [] | Some cs \<Rightarrow> cs) s"

definition comment_plugin_pattern :: string where
  "comment_plugin_pattern =
     ''plugin ['' @ [CHR 0x27, CHR 0x5C, CHR 0x22] @ ''](.*?)['' @ [CHR 0x27, CHR 0x5C, CHR 0x22] @ '']''"

definition comment_step :: "env \<Rightarrow> string \<Rightarrow> analyzer \<Rightarrow> analyzer" where
  "comment_step E comment s =
     (if str_in ''plugin'' (lower comment)
      then (let s1 = s\<lparr>custom_code_indicators :=
                         custom_code_indicators s @ [''HTML Comment: '' @ take 100 (strip comment)]\<rparr>
            in case re_search E comment_plugin_pattern (lower comment) of
                 None \<Rightarrow> s1
               | Some m \<Rightarrow>
                   s1\<lparr>plugins_detected :=
                        insert (m 1, ''Comment: '' @ take 50 comment @ ''...'') (plugins_detected s1)\<rparr>)
      else s)"

definition gutenberg_step :: "tag \<Rightarrow> analyzer \<Rightarrow> analyzer" where
  "gutenberg_step block s =
     (case filter (\<lambda>cls. startswith cls ''wp-block-'')
             (case tag_class block of None \<Rightarrow> [] | Some cs \<Rightarrow> cs) of
        [] \<Rightarrow> s
      | b # _ \<Rightarrow> s\<lparr>gutenberg_blocks := insert b (gutenberg_blocks s)\<rparr>)"

definition post_type_pattern :: string where
  "post_type_pattern = ''/([a-z0-9-_]+)/[a-z0-9-_]+/?$''"

definition post_type_step :: "env \<Rightarrow> string \<Rightarrow> analyzer \<Rightarrow> analyzer" where
  "post_type_step E href s =
     (case re_search E post_type_pattern href of
        None \<Rightarrow> s
      | Some m \<Rightarrow>
          if m 1 \<notin> set [''category'', ''tag'', ''product'', ''post'', ''page'']
          then s\<lparr>custom_post_types := insert (m 1) (custom_post_types s)\<rparr>
          else s)"

definition meta_step :: "tag \<Rightarrow> analyzer \<Rightarrow> analyzer" where
  "meta_step meta s =
     (case get_attr meta ''name'' of
        None \<Rightarrow> s
      | Some n \<Rightarrow>
          if n \<noteq> [] \<and> str_in ''generator'' n
          then (let content = (case get_attr meta ''content'' of None \<Rightarrow> [] | Some c \<Rightarrow> c)
                in if str_in ''plugin'' (lower content)
                   then s\<lparr>plugins_detected :=
                            insert (content, ''Meta Generator Tag'') (plugins_detected s)\<rparr>
                   else s)
          else s)"

definition widget_step :: "document \<Rightarrow> string \<Rightarrow> string \<Rightarrow> analyzer \<Rightarrow> analyzer" where
  "widget_step soup cls evidence s =
     (if filter (has_class cls) (find_all soup ''div'') \<noteq> []
      then s\<lparr>plugins_detected := insert (''woocommerce'', evidence) (plugins_detected s)\<rparr>
      else s)"

definition detect_plugins_from_html :: "env \<Rightarrow> document \<Rightarrow> string \<Rightarrow> analyzer \<Rightarrow> analyzer" where
  "detect_plugins_from_html E soup url s =
     (let all_scripts = find_all_with soup ''script'' ''src'';
          all_links = find_all_with soup ''link'' ''href'';
          s1 = fold (script_step E) all_scripts s;
          s2 = fold (link_step E) all_links s1;
          s3 = fold (class_tag_step E) (filter (\<lambda>t. tag_class t \<noteq> None) (tags soup)) s2;
          comments = filter (\<lambda>text. startswith (strip text) ''<!--'') (strings soup);
          s4 = fold (comment_step E) comments s3;
          gutenberg_patterns =
            filter (\<lambda>d. case tag_class d of
                           None \<Rightarrow> False
                         | Some cs \<Rightarrow> cs \<noteq> [] \<and> (\<exists>cls \<in> set cs. str_in ''wp-block-'' cls))
              (find_all soup ''div'');
          s5 = fold gutenberg_step gutenberg_patterns s4;
          s6 = fold (post_type_step E) (attr_values ''href'' (find_all_with soup ''a'' ''href'')) s5;
          s7 = fold meta_step (find_all soup ''meta'') s6;
          s8 = widget_step soup ''widget_shopping_cart_content'' ''Shopping Cart Widget'' s7
      in widget_step soup ''woocommerce-product-gallery'' ''Product Gallery'' s8)"

text \<open>The bodies of the loops of \<^verbatim>\<open>detect_custom_functionality\<close>.\<close>

definition data_attr_step :: "tag \<Rightarrow> string \<Rightarrow> analyzer \<Rightarrow> analyzer" where
  "data_attr_step t attr s =
     (if startswith attr ''data-''
         \<and> \<not> (\<exists>x \<in> set [''elementor'', ''woocommerce'', ''product'']. str_in x attr)
      then (case get_attr t attr of
              None \<Rightarrow> s
            | Some v \<Rightarrow>
                s\<lparr>custom_data_attributes := insert (attr @ ''='' @ v) (custom_data_attributes s)\<rparr>)
      else s)"

definition data_tag_step :: "tag \<Rightarrow> analyzer \<Rightarrow> analyzer" where
  "data_tag_step t s = fold (data_attr_step t) (remdups (map fst (tag_attrs t))) s"

definition ajax_action_pattern :: string where
  "ajax_action_pattern =
     ''action=(['' @ [CHR 0x27, CHR 0x5C, CHR 0x22] @ ''])([^'' @ [CHR 0x27, CHR 0x5C, CHR 0x22]
       @ '']+)'' @ [CHR 0x5C, CHR 0x5C] @ ''1''"

definition rest_pattern :: string where
  "rest_pattern =
     ''/wp-json/([^/'' @ [CHR 0x5C, CHR 0x22, CHR 0x27] @ '']+)/([^/'' @ [CHR 0x5C, CHR 0x22, CHR 0x27]
       @ '']+)''"

definition shortcode_pattern :: string where
  "shortcode_pattern =
     [CHR 0x5C] @ ''[([a-zA-Z0-9_-]+)(?:'' @ [CHR 0x5C] @ ''s+[^'' @ [CHR 0x5C] @ '']]+)?''
       @ [CHR 0x5C] @ '']''"

definition ajax_step :: "env \<Rightarrow> string \<Rightarrow> analyzer \<Rightarrow> analyzer" where
  "ajax_step E script_text s =
     (if str_in ''admin-ajax.php'' script_text
      then (case re_search E ajax_action_pattern script_text of
              Some m \<Rightarrow> s\<lparr>ajax_calls := insert (''AJAX action: '' @ m 2) (ajax_calls s)\<rparr>
            | None \<Rightarrow>
                s\<lparr>ajax_calls :=
                     insert (if length script_text > 100 then take 100 (strip script_text) @ ''...''
                             else script_text) (ajax_calls s)\<rparr>)
      else s)"

definition rest_step :: "env \<Rightarrow> string \<Rightarrow> analyzer \<Rightarrow> analyzer" where
  "rest_step E script_text s =
     (if str_in ''/wp-json/'' script_text
      then (case re_search E rest_pattern script_text of
              Some m \<Rightarrow> s\<lparr>rest_endpoints := insert (m 1 @ ''/'' @ m 2) (rest_endpoints s)\<rparr>
            | None \<Rightarrow> s)
      else s)"

definition shortcode_step :: "env \<Rightarrow> string \<Rightarrow> analyzer \<Rightarrow> analyzer" where
  "shortcode_step E script_text s =
     fold (\<lambda>shortcode s'. s'\<lparr>shortcodes := insert shortcode (shortcodes s')\<rparr>)
       (re_findall E shortcode_pattern script_text) s"

definition inline_script_step :: "env \<Rightarrow> tag \<Rightarrow> analyzer \<Rightarrow> analyzer" where
  "inline_script_step E script s =
     (case tag_string script of
        None \<Rightarrow> s
      | Some str \<Rightarrow>
          if str = [] then s
          else shortcode_step E (tag_text script)
                 (rest_step E (tag_text script) (ajax_step E (tag_text script) s)))"

definition json_step :: "env \<Rightarrow> tag \<Rightarrow> analyzer \<Rightarrow> analyzer" where
  "json_step E script s =
     (case tag_string script of
        None \<Rightarrow> s
      | Some script_text \<Rightarrow>
          if script_text = [] then s
          else (case json_str E script_text of
                  None \<Rightarrow> s
                | Some json_data \<Rightarrow>
                    s\<lparr>custom_code_indicators :=
                         custom_code_indicators s
                           @ [''JSON data block: '' @ take 100 json_data @ ''...'']\<rparr>))"

definition custom_js_step :: "tag \<Rightarrow> analyzer \<Rightarrow> analyzer" where
  "custom_js_step script s =
     (case tag_string script of
        None \<Rightarrow> s
      | Some str \<Rightarrow>
          if get_attr script ''src'' = None \<and> str \<noteq> [] \<and> length (strip str) > 0
          then (let script_text = strip str
                in if length script_text > 100 \<and> \<not> str_in ''jQuery'' (take 100 script_text)
                      \<and> \<not> str_in ''function('' (take 100 script_text)
                   then s\<lparr>custom_code_indicators :=
                             custom_code_indicators s
                               @ [''Custom JS: '' @ take 100 script_text @ ''...'']\<rparr>
                   else s)
          else s)"

definition detect_custom_functionality :: "env \<Rightarrow> document \<Rightarrow> analyzer \<Rightarrow> analyzer" where
  "detect_custom_functionality E soup s =
     (let s1 = fold data_tag_step (tags soup) s;
          s2 = fold (inline_script_step E) (find_all soup ''script'') s1;
          s3 = fold (json_step E)
                 (filter (\<lambda>t. get_attr t ''type'' = Some ''application/json'')
                    (find_all soup ''script'')) s2
      in fold custom_js_step (find_all soup ''script'') s3)"

subsection \<open>Crawl driver\<close>

text \<open>
  The local variables of \<^verbatim>\<open>analyze_site\<close> together with the analyzer: the frontier
  \<^verbatim>\<open>urls_to_visit\<close>, the counter \<^verbatim>\<open>pages_visited\<close> and \<^verbatim>\<open>self\<close>.
\<close>

record crawl =
  urls_to_visit :: "string list"
  pages_visited :: int
  self :: analyzer

text \<open>The condition of the \<^verbatim>\<open>while\<close> loop.\<close>

definition running :: "crawl \<Rightarrow> bool" where
  "running c = (urls_to_visit c \<noteq> [] \<and> pages_visited c < max_pages (self c))"

text \<open>
  The body of the loop. A fetch that gives no document goes on with the next URL and
  leaves \<^verbatim>\<open>pages_visited\<close> as it is. The loop runs the body on a non-empty frontier
  only; \<^verbatim>\<open>pop(0)\<close> on an empty one would raise \<^verbatim>\<open>IndexError\<close>.
\<close>

definition crawl_step :: "env \<Rightarrow> crawl \<Rightarrow> error + crawl" where
  "crawl_step E c =
     (case urls_to_visit c of
        [] \<Rightarrow> Inl IndexError
      | current_url # rest \<Rightarrow>
          (case fetch_page E current_url (self c) of
             (None, s1) \<Rightarrow> Inr (c\<lparr>urls_to_visit := rest, self := s1\<rparr>)
           | (Some soup, s1) \<Rightarrow>
               (let pv = pages_visited c + 1;
                    s2 = detect_plugins_from_html E soup current_url s1;
                    s3 = detect_custom_functionality E soup s2
                in if pv < max_pages s3
                   then (case extract_links E soup current_url s3 of
                           Inl e \<Rightarrow> Inl e
                         | Inr new_links \<Rightarrow>
                             Inr \<lparr>urls_to_visit = rest @ slice_to new_links (max_pages s3 - pv),
                                  pages_visited = pv, self = s3\<rparr>)
                   else Inr \<lparr>urls_to_visit = rest, pages_visited = pv, self = s3\<rparr>)))"

function crawl_loop :: "env \<Rightarrow> crawl \<Rightarrow> error + crawl" where
  "crawl_loop E c =
     (if running c
      then (case crawl_step E c of Inl e \<Rightarrow> Inl e | Inr c' \<Rightarrow> crawl_loop E c')
      else Inr c)"
  by pat_completeness auto

text \<open>The state after at most \<open>n\<close> iterations of the loop.\<close>

fun crawl_iter :: "env \<Rightarrow> nat \<Rightarrow> crawl \<Rightarrow> error + crawl" where
  "crawl_iter E 0 c = Inr c"
| "crawl_iter E (Suc n) c =
     (if running c
      then (case crawl_step E c of Inl e \<Rightarrow> Inl e | Inr c' \<Rightarrow> crawl_iter E n c')
      else Inr c)"

text \<open>The state in which \<^verbatim>\<open>analyze_site\<close> enters its loop.\<close>

definition start :: "analyzer \<Rightarrow> crawl" where
  "start s =
     (let s0 = (if \<not> (startswith (base_url s) ''http://'' \<or> startswith (base_url s) ''https://'')
                then s\<lparr>base_url := ''https://'' @ base_url s\<rparr> else s)
      in \<lparr>urls_to_visit = [base_url s0], pages_visited = 0, self = s0\<rparr>)"

text \<open>The derivation of \<^verbatim>\<open>main_theme\<close> and \<^verbatim>\<open>child_theme\<close> after the loop.\<close>

definition derive_themes :: "env \<Rightarrow> analyzer \<Rightarrow> analyzer" where
  "derive_themes E s =
     (let theme_names = map fst (iter_pair E (themes_detected s))
      in if length theme_names = 1 then s\<lparr>main_theme := Some (hd theme_names)\<rparr>
         else if length theme_names > 1
         then (let child_themes = filter (str_in ''-child'') theme_names
               in if child_themes \<noteq> []
                  then (let s1 = s\<lparr>child_theme := Some (hd child_themes)\<rparr>;
                            parent_theme = replace (hd child_themes) ''-child'' []
                        in if parent_theme \<in> set theme_names
                           then s1\<lparr>main_theme := Some parent_theme\<rparr>
                           else (let non_child_themes =
                                       filter (\<lambda>name. \<not> str_in ''-child'' name) theme_names
                                 in if non_child_themes \<noteq> []
                                    then s1\<lparr>main_theme := Some (hd non_child_themes)\<rparr>
                                    else s1\<lparr>main_theme := Some (hd theme_names)\<rparr>))
                  else s\<lparr>main_theme := Some (hd theme_names),
                         child_theme := Some (theme_names ! 1)\<rparr>)
         else s)"

definition analyze_site :: "env \<Rightarrow> analyzer \<Rightarrow> error + analyzer" where
  "analyze_site E s =
     (case crawl_loop E (start s) of
        Inl e \<Rightarrow> Inl e
      | Inr c \<Rightarrow> Inr (derive_themes E (self c)))"

subsection \<open>Report generator\<close>

text \<open>The glyphs in front of the headings, as the bytes of the source file.\<close>

definition glyph_report :: string where
  "glyph_report = map char_of [0xC3, 0xB0, 0xC5, 0xB8, 0xE2, 0x80, 0x9D :: nat]"

definition glyph_plugins :: string where
  "glyph_plugins = map char_of [0xC3, 0xA2, 0xC5, 0x93, 0xE2, 0x80, 0xA6 :: nat]"

definition glyph_none :: string where
  "glyph_none = map char_of [0xC3, 0xA2, 0xC5, 0x92 :: nat]"

definition glyph_theme :: string where
  "glyph_theme = map char_of [0xC3, 0xB0, 0xC5, 0xB8, 0xC5, 0xBD, 0xC2, 0xA8 :: nat]"

definition glyph_custom_plugins :: string where
  "glyph_custom_plugins =
     map char_of [0xC3, 0xB0, 0xC5, 0xB8, 0xE2, 0x80, 0xBA, 0xC2, 0xA0, 0xC3, 0xAF, 0xC2, 0xB8 :: nat]"

definition glyph_blocks :: string where
  "glyph_blocks = map char_of [0xC3, 0xB0, 0xC5, 0xB8, 0xE2, 0x80, 0x9C, 0xC2, 0xA6 :: nat]"

definition glyph_post_types :: string where
  "glyph_post_types = map char_of [0xC3, 0xB0, 0xC5, 0xB8, 0xE2, 0x80, 0x9C, 0xE2, 0x80, 0xB9 :: nat]"

definition glyph_rest :: string where
  "glyph_rest = map char_of [0xC3, 0xB0, 0xC5, 0xB8, 0xE2, 0x80, 0x9D, 0xC5, 0x92 :: nat]"

definition glyph_shortcodes :: string where
  "glyph_shortcodes = map char_of [0xC3, 0xB0, 0xC5, 0xB8, 0xC2, 0xA7, 0xC2, 0xA9 :: nat]"

definition glyph_custom :: string where
  "glyph_custom = map char_of [0xC3, 0xA2, 0xC5, 0xA1, 0xC2, 0xA1 :: nat]"

definition glyph_complete :: string where
  "glyph_complete = map char_of [0xC3, 0xB0, 0xC5, 0xB8, 0xC5, 0xA1, 0xE2, 0x82, 0xAC :: nat]"

text \<open>One \<^verbatim>\<open>report += f"\n- {x}"\<close> for every element of a list.\<close>

definition bullets :: "string \<Rightarrow> string list \<Rightarrow> string" where
  "bullets lead xs = concat (map (\<lambda>x. ''\<newline>'' @ lead @ x) xs)"

definition header_section :: "analyzer \<Rightarrow> string" where
  "header_section s =
     ''\<newline>'' @ glyph_report @ '' **WooCommerce Website Analysis Report** '' @ glyph_report @ ''\<newline>''
     @ ''\<newline>Target Website: '' @ base_url s
     @ ''\<newline>Pages Analyzed: '' @ str_int (int (card (visited_urls s)))"

definition plugin_entry :: "env \<Rightarrow> analyzer \<Rightarrow> string \<Rightarrow> string" where
  "plugin_entry E s plugin =
     (let sources = map snd (filter (\<lambda>(p, source). p = plugin) (iter_pair E (plugins_detected s)))
      in (case map_of known_plugins (lower plugin) of
            Some description \<Rightarrow> ''\<newline>- '' @ plugin @ '' - '' @ description
          | None \<Rightarrow> ''\<newline>- '' @ plugin)
         @ (if verbose s then bullets ''  - Found in: '' (take 3 sources) else []))"

definition plugins_section :: "env \<Rightarrow> analyzer \<Rightarrow> string" where
  "plugins_section E s =
     (if plugins_detected s \<noteq> {}
      then (let keys = sort (remdups (map fst (iter_pair E (plugins_detected s))));
                sorted_plugins =
                  (if ''woocommerce'' \<in> set keys
                   then ''woocommerce'' # remove1 ''woocommerce'' keys else keys)
            in ''\<newline>\<newline>'' @ glyph_plugins @ '' **Detected Plugins:**''
               @ concat (map (plugin_entry E s) sorted_plugins))
      else ''\<newline>\<newline>'' @ glyph_none @ '' No plugins were detected from front-end assets.'')"

definition theme_section :: "env \<Rightarrow> analyzer \<Rightarrow> string" where
  "theme_section E s =
     (if themes_detected s \<noteq> {}
      then ''\<newline>\<newline>'' @ glyph_theme @ '' **Detected Theme:**''
           @ (case main_theme s of
                None \<Rightarrow> []
              | Some m \<Rightarrow> if m \<noteq> [] then ''\<newline>- Main Theme: '' @ m else [])
           @ (case child_theme s of
                None \<Rightarrow> []
              | Some ch \<Rightarrow> if ch \<noteq> [] then ''\<newline>- Child Theme: '' @ ch else [])
           @ (if verbose s
              then ''\<newline>\<newline>Theme Assets:'' @ bullets ''- '' (map snd (iter_pair E (themes_detected s)))
              else [])
      else ''\<newline>\<newline>'' @ glyph_none @ '' No WordPress theme detected.'')"

definition custom_plugins_section :: "analyzer \<Rightarrow> string" where
  "custom_plugins_section s =
     (let custom_plugins = filter (str_in ''Custom Plugin:'') (custom_code_indicators s)
      in if custom_plugins \<noteq> []
         then ''\<newline>\<newline>'' @ glyph_custom_plugins @ '' **Custom Plugins Detected:**''
              @ bullets ''- '' (map (\<lambda>plugin. replace plugin ''Custom Plugin: '' []) custom_plugins)
         else [])"

definition blocks_section :: "env \<Rightarrow> analyzer \<Rightarrow> string" where
  "blocks_section E s =
     (if gutenberg_blocks s \<noteq> {}
      then ''\<newline>\<newline>'' @ glyph_blocks @ '' **Detected Gutenberg Blocks:**''
           @ bullets ''- '' (iter_str E (gutenberg_blocks s))
      else [])"

definition post_types_section :: "env \<Rightarrow> analyzer \<Rightarrow> string" where
  "post_types_section E s =
     (if custom_post_types s \<noteq> {}
      then ''\<newline>\<newline>'' @ glyph_post_types @ '' **Detected Custom Post Types:**''
           @ bullets ''- '' (iter_str E (custom_post_types s))
      else [])"

definition rest_section :: "env \<Rightarrow> analyzer \<Rightarrow> string" where
  "rest_section E s =
     (if rest_endpoints s \<noteq> {}
      then ''\<newline>\<newline>'' @ glyph_rest @ '' **Detected REST API Endpoints:**''
           @ bullets ''- wp-json/'' (iter_str E (rest_endpoints s))
      else [])"

definition shortcodes_section :: "env \<Rightarrow> analyzer \<Rightarrow> string" where
  "shortcodes_section E s =
     (if shortcodes s \<noteq> {}
      then ''\<newline>\<newline>'' @ glyph_shortcodes @ '' **Detected Shortcodes:**''
           @ bullets ''- ['' (map (\<lambda>shortcode. shortcode @ '']'') (iter_str E (shortcodes s)))
      else [])"

text \<open>The overflow line of a capped list: nothing when \<open>n\<close> items fit under the cap.\<close>

definition overflow_line :: "nat \<Rightarrow> nat \<Rightarrow> string" where
  "overflow_line n cap =
     (if n > cap then ''\<newline>- ... and '' @ str_int (int n - int cap) @ '' more'' else [])"

definition data_attributes_section :: "env \<Rightarrow> analyzer \<Rightarrow> string" where
  "data_attributes_section E s =
     (if custom_data_attributes s \<noteq> {}
      then ''\<newline>\<newline>Custom Data Attributes:''
           @ bullets ''- '' (take 10 (iter_str E (custom_data_attributes s)))
           @ overflow_line (card (custom_data_attributes s)) 10
      else [])"

definition ajax_section :: "env \<Rightarrow> analyzer \<Rightarrow> string" where
  "ajax_section E s =
     (if ajax_calls s \<noteq> {}
      then ''\<newline>\<newline>AJAX Calls (Potential Custom Features):''
           @ bullets ''- '' (iter_str E (ajax_calls s))
      else [])"

definition indicators_section :: "analyzer \<Rightarrow> string" where
  "indicators_section s =
     (let custom_code_without_plugins =
            filter (\<lambda>item. \<not> str_in ''Custom Plugin:'' item) (custom_code_indicators s)
      in if custom_code_without_plugins \<noteq> []
         then ''\<newline>\<newline>Other Custom Code Indicators:''
              @ bullets ''- '' (take 5 custom_code_without_plugins)
              @ overflow_line (length custom_code_without_plugins) 5
         else [])"

definition css_section :: "env \<Rightarrow> analyzer \<Rightarrow> string" where
  "css_section E s =
     (if verbose s \<and> css_classes s \<noteq> {}
      then (let plugin_specific_classes =
                  filter (\<lambda>cls. \<exists>prefix \<in> set [''wc-'', ''yith-'', ''elementor-'', ''wp-block-''].
                                   startswith cls prefix)
                    (iter_str E (css_classes s))
            in ''\<newline>\<newline>'' @ glyph_report @ '' **Interesting CSS Classes:**''
               @ bullets ''- '' (take 20 plugin_specific_classes)
               @ overflow_line (length plugin_specific_classes) 20)
      else [])"

text \<open>
  \<^verbatim>\<open>generate_report\<close>. With \<^verbatim>\<open>save_to_file\<close> the file name is built from
  \<^verbatim>\<open>urlparse(self.base_url).netloc\<close> before the report is returned; writing the file is not
  modelled.
\<close>

definition report_text :: "env \<Rightarrow> analyzer \<Rightarrow> string" where
  "report_text E s =
     header_section s @ plugins_section E s @ theme_section E s @ custom_plugins_section s
     @ blocks_section E s @ post_types_section E s @ rest_section E s @ shortcodes_section E s
     @ ''\<newline>\<newline>'' @ glyph_custom @ '' **Potential Custom Functionality:**''
     @ data_attributes_section E s @ ajax_section E s @ indicators_section s @ css_section E s
     @ ''\<newline>\<newline>'' @ glyph_complete @ '' **Analysis Complete!** '' @ glyph_complete"

definition generate_report :: "env \<Rightarrow> bool \<Rightarrow> analyzer \<Rightarrow> error + string" where
  "generate_report E save_to_file s =
     (if save_to_file
      then (case urlparse_netloc E (base_url s) of
              None \<Rightarrow> Inl ValueError
            | Some netloc \<Rightarrow> Inr (report_text E s))
      else Inr (report_text E s))"

text \<open>\<^verbatim>\<open>main\<close> after argument parsing: build the analyzer, crawl, report.\<close>

definition main :: "env \<Rightarrow> string \<Rightarrow> int \<Rightarrow> bool \<Rightarrow> bool \<Rightarrow> error + string" where
  "main E url pages save verb =
     (case analyze_site E (init url pages verb) of
        Inl e \<Rightarrow> Inl e
      | Inr s \<Rightarrow> generate_report E save s)"

section \<open>Auxiliary definitions\<close>

subsection \<open>Footprints of the detectors\<close>

text \<open>
  What \<^verbatim>\<open>detect_plugins_from_html\<close> can do to the analyzer: add to four sets, transform
  the theme evidence, append to the list of indicators.
\<close>

definition plugin_delta ::
  "(string \<times> string) set \<Rightarrow> ((string \<times> string) set \<Rightarrow> (string \<times> string) set) \<Rightarrow> string set
    \<Rightarrow> string set \<Rightarrow> string set \<Rightarrow> string list \<Rightarrow> analyzer \<Rightarrow> analyzer" where
  "plugin_delta PL TH CS GB PT CC s =
     s\<lparr>plugins_detected := plugins_detected s \<union> PL, themes_detected := TH (themes_detected s),
       css_classes := css_classes s \<union> CS, gutenberg_blocks := gutenberg_blocks s \<union> GB,
       custom_post_types := custom_post_types s \<union> PT,
       custom_code_indicators := custom_code_indicators s @ CC\<rparr>"

definition plugin_like ::
  "((string \<times> string) set \<Rightarrow> (string \<times> string) set) \<Rightarrow> (analyzer \<Rightarrow> analyzer) \<Rightarrow> bool" where
  "plugin_like TH f = (\<exists>PL CS GB PT CC. \<forall>s. f s = plugin_delta PL TH CS GB PT CC s)"

text \<open>What \<^verbatim>\<open>detect_custom_functionality\<close> can do: add to four other sets, append to the same list.\<close>

definition custom_delta ::
  "string set \<Rightarrow> string set \<Rightarrow> string set \<Rightarrow> string set \<Rightarrow> string list \<Rightarrow> analyzer \<Rightarrow> analyzer" where
  "custom_delta DA AJ RE SC CC s =
     s\<lparr>custom_data_attributes := custom_data_attributes s \<union> DA, ajax_calls := ajax_calls s \<union> AJ,
       rest_endpoints := rest_endpoints s \<union> RE, shortcodes := shortcodes s \<union> SC,
       custom_code_indicators := custom_code_indicators s @ CC\<rparr>"

definition custom_like :: "(analyzer \<Rightarrow> analyzer) \<Rightarrow> bool" where
  "custom_like f = (\<exists>DA AJ RE SC CC. \<forall>s. f s = custom_delta DA AJ RE SC CC s)"

text \<open>The theme evidence after one asset URL, as a function of the theme evidence before.\<close>

definition theme_upd :: "env \<Rightarrow> string \<Rightarrow> (string \<times> string) set \<Rightarrow> (string \<times> string) set" where
  "theme_upd E asset_url T =
     (case first_match E theme_path_patterns asset_url of
        None \<Rightarrow> T
      | Some theme_name \<Rightarrow>
          (let T' = insert (theme_name, asset_url) T
           in if str_in ''-child'' theme_name
              then (let parent_theme = replace theme_name ''-child'' []
                    in if parent_theme \<notin> fst ` T' then insert (parent_theme, inferred_evidence) T'
                       else T')
              else T'))"

definition tag_theme_upd :: "env \<Rightarrow> string \<Rightarrow> tag \<Rightarrow> (string \<times> string) set \<Rightarrow> (string \<times> string) set" where
  "tag_theme_upd E a t T = (case get_attr t a of None \<Rightarrow> T | Some asset_url \<Rightarrow> theme_upd E asset_url T)"

definition doc_theme_upd :: "env \<Rightarrow> document \<Rightarrow> (string \<times> string) set \<Rightarrow> (string \<times> string) set" where
  "doc_theme_upd E soup T =
     fold (tag_theme_upd E ''href'') (find_all_with soup ''link'' ''href'')
       (fold (tag_theme_upd E ''src'') (find_all_with soup ''script'' ''src'') T)"

text \<open>The asset URLs of a page: the \<^verbatim>\<open>src\<close> of its scripts and the \<^verbatim>\<open>href\<close> of its links.\<close>

definition asset_urls :: "document \<Rightarrow> string list" where
  "asset_urls soup =
     attr_values ''src'' (find_all_with soup ''script'' ''src'')
     @ attr_values ''href'' (find_all_with soup ''link'' ''href'')"

text \<open>The two detector calls of one iteration of the crawl loop.\<close>

definition run_detectors :: "env \<Rightarrow> document \<Rightarrow> string \<Rightarrow> analyzer \<Rightarrow> analyzer" where
  "run_detectors E soup url s =
     detect_custom_functionality E soup (detect_plugins_from_html E soup url s)"

subsection \<open>Invariants of a crawl\<close>

text \<open>
  With \<open>p\<close> pages analysed under a budget of \<open>N\<close>, the requests sent and the URLs still in
  the frontier are together at most \<open>1 + (N - 1) + \<dots> + (N - p)\<close>.
\<close>

definition crawl_inv :: "crawl \<Rightarrow> bool" where
  "crawl_inv c =
     (0 \<le> pages_visited c
      \<and> (pages_visited c \<le> max_pages (self c) \<or> pages_visited c = 0)
      \<and> 2 * (int (length (request_log (self c))) + int (length (urls_to_visit c)))
          \<le> 2 + pages_visited c * (2 * max_pages (self c) - pages_visited c - 1))"

text \<open>
  The theme evidence of a crawl that meets no theme but \<^verbatim>\<open>my-theme-child\<close>: entries for the
  child theme, the inferred entry for \<^verbatim>\<open>my-theme\<close>, and both as soon as there is one.
\<close>

definition theme_inv :: "(string \<times> string) set \<Rightarrow> bool" where
  "theme_inv T =
     (finite T
      \<and> T \<subseteq> ({''my-theme-child''} \<times> UNIV) \<union> {(''my-theme'', inferred_evidence)}
      \<and> (T \<noteq> {} \<longrightarrow> (''my-theme'', inferred_evidence) \<in> T \<and> (\<exists>u. (''my-theme-child'', u) \<in> T)))"

text \<open>Every theme-path match on the asset URLs of a page, or of every page of a site, is \<open>name\<close>.\<close>

definition only_theme :: "env \<Rightarrow> string \<Rightarrow> document \<Rightarrow> bool" where
  "only_theme E name soup =
     (\<forall>a \<in> set (asset_urls soup). first_match E theme_path_patterns a \<in> {None, Some name})"

definition site_only_theme :: "env \<Rightarrow> string \<Rightarrow> bool" where
  "site_only_theme E name =
     (\<forall>n u status d. http_get E n u = Response status (Some d) \<longrightarrow> only_theme E name d)"

subsection \<open>A concrete environment\<close>

text \<open>
  An environment to run the analyzer on examples. Its \<open>re_search\<close> implements the eight
  directory patterns \<^verbatim>\<open>prefix([^/]+)/\<close> (the leftmost place where the prefix is followed
  by a non-empty run without a slash and then a slash) and its \<open>re_match\<close> the patterns
  \<^verbatim>\<open>^literal\<close>; the other patterns, \<open>re_findall\<close> and \<open>json_str\<close> find nothing, which is
  what Python finds on the example pages below. \<open>urljoin\<close> and \<open>urlparse_netloc\<close> are right
  for absolute \<^verbatim>\<open>http\<close> and \<^verbatim>\<open>https\<close> URLs without user or port and for fragments, and
  raise on \<^verbatim>\<open>http://[\<close>. Sets are iterated in ascending order.
\<close>

fun dir_search :: "string \<Rightarrow> string \<Rightarrow> string option" where
  "dir_search pre [] = None"
| "dir_search pre (c # cs) =
     (if startswith (c # cs) pre
      then (let rest = drop (length pre) (c # cs);
                seg = takeWhile (\<lambda>x. x \<noteq> CHR ''/'') rest
            in if seg \<noteq> [] \<and> length seg < length rest then Some seg else dir_search pre cs)
      else dir_search pre cs)"

definition demo_re_search :: "string \<Rightarrow> string \<Rightarrow> (nat \<Rightarrow> string) option" where
  "demo_re_search pattern s =
     (if pattern \<in> set (plugin_path_patterns @ theme_path_patterns)
      then (case dir_search (take (length pattern - 8) pattern) s of
              None \<Rightarrow> None
            | Some g \<Rightarrow> Some (\<lambda>i. if i = 1 then g else []))
      else None)"

definition demo_re_match :: "string \<Rightarrow> string \<Rightarrow> bool" where
  "demo_re_match pattern s = (case pattern of [] \<Rightarrow> False | c # lit \<Rightarrow> c = CHR ''^'' \<and> startswith s lit)"

definition demo_urljoin :: "string \<Rightarrow> string \<Rightarrow> string option" where
  "demo_urljoin base url =
     (if url = ''http://['' then None
      else if startswith url ''http://'' \<or> startswith url ''https://'' then Some url
      else Some (base @ url))"

definition demo_netloc :: "string \<Rightarrow> string option" where
  "demo_netloc url =
     (if url = ''http://['' then None
      else if startswith url ''https://''
      then Some (takeWhile (\<lambda>c. c \<notin> {CHR ''/'', CHR ''?'', CHR ''#''}) (drop 8 url))
      else if startswith url ''http://''
      then Some (takeWhile (\<lambda>c. c \<notin> {CHR ''/'', CHR ''?'', CHR ''#''}) (drop 7 url))
      else Some [])"

definition demo_env :: "(string \<Rightarrow> response) \<Rightarrow> env" where
  "demo_env site =
     \<lparr>http_get = (\<lambda>n url. site url), urljoin = demo_urljoin, urlparse_netloc = demo_netloc,
      re_search = demo_re_search, re_match = demo_re_match, re_findall = (\<lambda>p s. []),
      json_str = (\<lambda>s. None), iter_str = sorted_list_of_set, iter_pair = sorted_list_of_set\<rparr>"

text \<open>Tags and pages for the examples.\<close>

definition a_tag :: "string \<Rightarrow> tag" where
  "a_tag href = \<lparr>tag_name = ''a'', tag_attrs = [(''href'', href)], tag_class = None,
                 tag_text = [], tag_string = None\<rparr>"

definition page :: "tag list \<Rightarrow> document" where
  "page ts = \<lparr>tags = ts, strings = []\<rparr>"

definition script_tag :: "string \<Rightarrow> tag" where
  "script_tag src = \<lparr>tag_name = ''script'', tag_attrs = [(''src'', src)], tag_class = None,
                      tag_text = [], tag_string = None\<rparr>"

definition inline_script :: "string \<Rightarrow> tag" where
  "inline_script body = \<lparr>tag_name = ''script'', tag_attrs = [], tag_class = None,
                          tag_text = body, tag_string = Some body\<rparr>"

definition link_tag :: "string \<Rightarrow> tag" where
  "link_tag href = \<lparr>tag_name = ''link'', tag_attrs = [(''href'', href)], tag_class = None,
                     tag_text = [], tag_string = None\<rparr>"

text \<open>An environment without network: every request raises.\<close>

definition offline :: env where
  "offline = demo_env (\<lambda>url. RequestException)"

subsection \<open>Example pages, sites and states\<close>

text \<open>
  A page with the script of a plugin named \<^verbatim>\<open>popsigns\<close> and an inline script of 101
  characters \<^verbatim>\<open>x\<close>.
\<close>

definition custom_page :: document where
  "custom_page =
     page [script_tag ''/wp-content/plugins/popsigns/a.js'', inline_script (replicate 101 CHR ''x'')]"

text \<open>
  A shop whose home page links to \<^verbatim>\<open>/a\<close> and \<^verbatim>\<open>/b\<close>, whose page \<^verbatim>\<open>/a\<close> links to
  \<^verbatim>\<open>/c\<close>, and which answers 404 everywhere else.
\<close>

definition shop_site :: "string \<Rightarrow> response" where
  "shop_site url =
     (if url = ''https://example.com''
      then Response 200 (Some (page [a_tag ''https://example.com/a'', a_tag ''https://example.com/b'']))
      else if url = ''https://example.com/a''
      then Response 200 (Some (page [a_tag ''https://example.com/c'']))
      else Response 404 None)"



definition shop_final :: crawl where
  "shop_final =
     \<lparr>urls_to_visit = [], pages_visited = 2,
      self = (init ''https://example.com'' 3 False)
        \<lparr>visited_urls := {''https://example.com'', ''https://example.com/a'',
                          ''https://example.com/b'', ''https://example.com/c''},
         request_log := [''https://example.com'', ''https://example.com/a'',
                         ''https://example.com/b'', ''https://example.com/c'']\<rparr>\<rparr>"

text \<open>
  A site whose home page links twice to a URL on which every request fails with an
  exception, and the crawl of it with a budget of 3 pages.
\<close>

definition down_site :: "string \<Rightarrow> response" where
  "down_site url =
     (if url = ''https://example.com''
      then Response 200 (Some (page [a_tag ''https://example.com/down'',
                                     a_tag ''https://example.com/down'']))
      else RequestException)"

definition down_final :: crawl where
  "down_final =
     \<lparr>urls_to_visit = [], pages_visited = 1,
      self = (init ''https://example.com'' 3 False)
        \<lparr>visited_urls := {''https://example.com''},
         request_log := [''https://example.com'', ''https://example.com/down'',
                         ''https://example.com/down'']\<rparr>\<rparr>"

text \<open>A site whose home page holds the link \<^verbatim>\<open><a href="http://[">\<close>.\<close>

definition bad_link_site :: "string \<Rightarrow> response" where
  "bad_link_site url =
     (if url = ''https://example.com'' then Response 200 (Some (page [a_tag ''http://['']))
      else Response 404 None)"

text \<open>
  A finished state with 15 custom data attributes, 6 indicators that are not custom plugins
  and 21 classes with the prefix \<^verbatim>\<open>wc-\<close>, reported in verbose mode; and one with four
  sources for one plugin.
\<close>

definition full_state :: analyzer where
  "full_state =
     (init ''https://example.com'' 5 True)
       \<lparr>custom_data_attributes :=
          {''data-a=1'', ''data-b=2'', ''data-c=3'', ''data-d=4'', ''data-e=5'', ''data-f=6'', ''data-g=7'', ''data-h=8'', ''data-i=9'', ''data-j=10'', ''data-k=11'', ''data-l=12'', ''data-m=13'', ''data-n=14'', ''data-o=15''},
        custom_code_indicators :=
          [''Custom JS: a...'', ''Custom JS: b...'', ''Custom JS: c...'', ''HTML Comment: d'', ''HTML Comment: e'', ''JSON data block: f...''],
        css_classes :=
          {''wc-a'', ''wc-b'', ''wc-c'', ''wc-d'', ''wc-e'', ''wc-f'', ''wc-g'', ''wc-h'', ''wc-i'', ''wc-j'', ''wc-k'', ''wc-l'', ''wc-m'', ''wc-n'', ''wc-o'', ''wc-p'', ''wc-q'', ''wc-r'', ''wc-s'', ''wc-t'', ''wc-u''}\<rparr>"


text \<open>A site whose home page loads the style sheet of the theme \<^verbatim>\<open>my-theme-child\<close>, and its crawl.\<close>

definition theme_page :: document where
  "theme_page = page [link_tag ''/wp-content/themes/my-theme-child/style.css'']"

definition theme_site :: "string \<Rightarrow> response" where
  "theme_site url =
     (if url = ''https://example.com'' then Response 200 (Some theme_page) else Response 404 None)"

definition theme_final :: crawl where
  "theme_final =
     \<lparr>urls_to_visit = [], pages_visited = 1,
      self = (init ''https://example.com'' 5 False)
        \<lparr>visited_urls := {''https://example.com''},
         themes_detected := {(''my-theme-child'', ''/wp-content/themes/my-theme-child/style.css''),
                             (''my-theme'', inferred_evidence)},
         request_log := [''https://example.com'']\<rparr>\<rparr>"

text \<open>A page with an external link, an anchor, a link to the visited home page and three internal links.\<close>

definition links_page :: document where
  "links_page =
     page [a_tag ''https://other.com/x'', a_tag ''#top'', a_tag ''https://example.com'',
           a_tag ''https://example.com/shop'', a_tag ''https://example.com/cart'',
           a_tag ''https://example.com/shop'']"

definition home_visited :: analyzer where
  "home_visited = (init ''https://example.com'' 5 False)\<lparr>visited_urls := {''https://example.com''}\<rparr>"

section \<open>Properties\<close>

subsection \<open>The detectors stay inside their footprints\<close>

lemma plugin_likeI: "(\<And>s. f s = plugin_delta PL TH CS GB PT CC s) \<Longrightarrow> plugin_like TH f"
  unfolding plugin_like_def by blast

lemma like_id: "plugin_like (\<lambda>T. T) (\<lambda>s. s)"
  by (rule plugin_likeI[of _ "{}" _ "{}" "{}" "{}" "[]"]) (simp add: plugin_delta_def)

lemma like_comp:
  assumes "plugin_like TH f" and "plugin_like TH' g"
  shows "plugin_like (\<lambda>T. TH' (TH T)) (\<lambda>s. g (f s))"
proof -
  from assms obtain PL CS GB PT CC PL' CS' GB' PT' CC' where
    f: "\<And>s. f s = plugin_delta PL TH CS GB PT CC s" and
    g: "\<And>s. g s = plugin_delta PL' TH' CS' GB' PT' CC' s"
    unfolding plugin_like_def by blast
  show ?thesis
    by (rule plugin_likeI[of _ "PL \<union> PL'" _ "CS \<union> CS'" "GB \<union> GB'" "PT \<union> PT'" "CC @ CC'"])
       (simp add: f g plugin_delta_def Un_assoc)
qed

lemma like_fold:
  assumes "\<And>x. plugin_like (TH x) (f x)"
  shows "plugin_like (fold TH xs) (fold f xs)"
proof (induction xs)
  case Nil
  show ?case using like_id by (simp add: id_def)
next
  case (Cons x xs)
  have "plugin_like (\<lambda>T. fold TH xs (TH x T)) (\<lambda>s. fold f xs (f x s))"
    by (rule like_comp[OF assms Cons.IH])
  then show ?case by (simp add: comp_def)
qed

lemma fold_const_id: "fold (\<lambda>x T. T) xs = (\<lambda>T. T)"
  by (induction xs) (auto simp: fun_eq_iff)

lemma like_fold_id:
  assumes "\<And>x. plugin_like (\<lambda>T. T) (f x)"
  shows "plugin_like (\<lambda>T. T) (fold f xs)"
  using like_fold[of "\<lambda>x T. T" f xs, OF assms] by (simp add: fold_const_id)

lemma like_check_plugin_paths: "plugin_like (\<lambda>T. T) (check_plugin_paths E a)"
  by (rule plugin_likeI[of _
        "case first_match E plugin_path_patterns a of None \<Rightarrow> {} | Some n \<Rightarrow> {(n, a)}" _ "{}" "{}" "{}"
        "case first_match E plugin_path_patterns a of None \<Rightarrow> []
         | Some n \<Rightarrow> if str_in ''pop'' (lower n) \<or> str_in ''sign'' (lower n)
                     then [''Custom Plugin: '' @ n] else []"])
     (simp add: plugin_delta_def check_plugin_paths_def Let_def split: option.splits)

lemma like_check_theme_paths: "plugin_like (theme_upd E a) (check_theme_paths E a)"
  by (rule plugin_likeI[of _ "{}" _ "{}" "{}" "{}" "[]"])
     (simp add: plugin_delta_def check_theme_paths_def theme_upd_def Let_def split: option.splits)

lemma like_check_asset: "plugin_like (theme_upd E a) (check_asset_for_plugin E a)"
  using like_comp[OF like_check_plugin_paths like_check_theme_paths, of E a E a]
  by (simp add: check_asset_for_plugin_def[abs_def])

lemma like_id_check:
  "plugin_like (\<lambda>T. T) (\<lambda>s1. case get_attr t ''id'' of None \<Rightarrow> s1
      | Some i \<Rightarrow> if i \<noteq> [] \<and> str_in suf i
          then (let p = replace i suf [] in if map_of known_plugins p \<noteq> None
                then s1\<lparr>plugins_detected := insert (p, label @ i) (plugins_detected s1)\<rparr> else s1)
          else s1)"
  by (rule plugin_likeI[of _
        "case get_attr t ''id'' of None \<Rightarrow> {}
         | Some i \<Rightarrow> if i \<noteq> [] \<and> str_in suf i \<and> map_of known_plugins (replace i suf []) \<noteq> None
                     then {(replace i suf [], label @ i)} else {}" _ "{}" "{}" "{}" "[]"])
     (simp add: plugin_delta_def Let_def split: option.splits)

lemma like_script_step: "plugin_like (tag_theme_upd E ''src'' t) (script_step E t)"
proof (cases "get_attr t ''src''")
  case None
  then show ?thesis using like_id by (simp add: script_step_def[abs_def] tag_theme_upd_def[abs_def])
next
  case (Some src)
  show ?thesis
    using like_comp[OF like_check_asset[of E src] like_id_check[where t = t and suf = "''-js''" and label = "''Script ID: ''"]]
    by (simp add: script_step_def[abs_def] tag_theme_upd_def[abs_def] Some Let_def)
qed

lemma like_link_step: "plugin_like (tag_theme_upd E ''href'' t) (link_step E t)"
proof (cases "get_attr t ''href''")
  case None
  then show ?thesis using like_id by (simp add: link_step_def[abs_def] tag_theme_upd_def[abs_def])
next
  case (Some href)
  show ?thesis
    using like_comp[OF like_check_asset[of E href] like_id_check[where t = t and suf = "''-css''" and label = "''Link ID: ''"]]
    by (simp add: link_step_def[abs_def] tag_theme_upd_def[abs_def] Some Let_def)
qed


lemma like_add_potential:
  "plugin_like (\<lambda>T. T) (\<lambda>s. if b then add_potential_plugin_from_pattern p c s else s)"
  by (rule plugin_likeI[of _
        "if b then (case map_of pattern_to_plugin p of None \<Rightarrow> {}
                    | Some pl \<Rightarrow> {(pl, ''CSS Class: '' @ c)}) else {}" _ "{}" "{}" "{}" "[]"])
     (simp add: plugin_delta_def add_potential_plugin_from_pattern_def split: option.splits)

lemma like_css_class_step: "plugin_like (\<lambda>T. T) (css_class_step E c)"
proof -
  have A: "plugin_like (\<lambda>T. T) (\<lambda>s. s\<lparr>css_classes := insert c (css_classes s)\<rparr>)"
    by (rule plugin_likeI[of _ "{}" _ "{c}" "{}" "{}" "[]"]) (simp add: plugin_delta_def)
  have B: "plugin_like (\<lambda>T. T)
             (fold (\<lambda>pattern s'. if re_match E pattern c
                                  then add_potential_plugin_from_pattern pattern c s' else s')
                plugin_patterns)"
    by (rule like_fold_id) (rule like_add_potential)
  show ?thesis using like_comp[OF A B] by (simp add: css_class_step_def[abs_def])
qed

lemma like_class_tag_step: "plugin_like (\<lambda>T. T) (class_tag_step E t)"
  unfolding class_tag_step_def[abs_def] by (rule like_fold_id) (rule like_css_class_step)

lemma like_comment_step: "plugin_like (\<lambda>T. T) (comment_step E c)"
  by (rule plugin_likeI[of _
        "if str_in ''plugin'' (lower c)
         then (case re_search E comment_plugin_pattern (lower c) of None \<Rightarrow> {}
               | Some m \<Rightarrow> {(m 1, ''Comment: '' @ take 50 c @ ''...'')}) else {}" _ "{}" "{}" "{}"
        "if str_in ''plugin'' (lower c) then [''HTML Comment: '' @ take 100 (strip c)] else []"])
     (simp add: plugin_delta_def comment_step_def Let_def split: option.splits)

lemma like_gutenberg_step: "plugin_like (\<lambda>T. T) (gutenberg_step t)"
  by (rule plugin_likeI[of _ "{}" _ "{}"
        "case filter (\<lambda>cls. startswith cls ''wp-block-'')
                (case tag_class t of None \<Rightarrow> [] | Some cs \<Rightarrow> cs) of [] \<Rightarrow> {} | b # _ \<Rightarrow> {b}"
        "{}" "[]"])
     (simp add: plugin_delta_def gutenberg_step_def split: list.splits)

lemma like_post_type_step: "plugin_like (\<lambda>T. T) (post_type_step E h)"
  by (rule plugin_likeI[of _ "{}" _ "{}" "{}"
        "case re_search E post_type_pattern h of None \<Rightarrow> {}
         | Some m \<Rightarrow> if m 1 \<notin> set [''category'', ''tag'', ''product'', ''post'', ''page'']
                     then {m 1} else {}" "[]"])
     (simp add: plugin_delta_def post_type_step_def split: option.splits)

lemma like_meta_step: "plugin_like (\<lambda>T. T) (meta_step t)"
  by (rule plugin_likeI[of _
        "case get_attr t ''name'' of None \<Rightarrow> {}
         | Some n \<Rightarrow>
             if n \<noteq> [] \<and> str_in ''generator'' n
                \<and> str_in ''plugin'' (lower (case get_attr t ''content'' of None \<Rightarrow> [] | Some c \<Rightarrow> c))
             then {(case get_attr t ''content'' of None \<Rightarrow> [] | Some c \<Rightarrow> c, ''Meta Generator Tag'')}
             else {}" _ "{}" "{}" "{}" "[]"])
     (simp add: plugin_delta_def meta_step_def Let_def split: option.splits)

lemma like_widget_step: "plugin_like (\<lambda>T. T) (widget_step soup cls ev)"
  by (rule plugin_likeI[of _
        "if filter (has_class cls) (find_all soup ''div'') \<noteq> [] then {(''woocommerce'', ev)} else {}"
        _ "{}" "{}" "{}" "[]"])
     (simp add: plugin_delta_def widget_step_def)

lemma like_detect_plugins: "plugin_like (doc_theme_upd E soup) (detect_plugins_from_html E soup url)"
proof -
  note c1 = like_comp[OF like_fold[of "tag_theme_upd E ''src''" "script_step E", OF like_script_step]
                         like_fold[of "tag_theme_upd E ''href''" "link_step E", OF like_link_step]]
  note c2 = like_comp[OF c1 like_fold_id[of "class_tag_step E", OF like_class_tag_step]]
  note c3 = like_comp[OF c2 like_fold_id[of "comment_step E", OF like_comment_step]]
  note c4 = like_comp[OF c3 like_fold_id[of gutenberg_step, OF like_gutenberg_step]]
  note c5 = like_comp[OF c4 like_fold_id[of "post_type_step E", OF like_post_type_step]]
  note c6 = like_comp[OF c5 like_fold_id[of meta_step, OF like_meta_step]]
  note c7 = like_comp[OF c6 like_widget_step]
  note c8 = like_comp[OF c7 like_widget_step]
  show ?thesis unfolding detect_plugins_from_html_def[abs_def] doc_theme_upd_def[abs_def] Let_def
    by (rule c8)
qed

lemma custom_likeI: "(\<And>s. f s = custom_delta DA AJ RE SC CC s) \<Longrightarrow> custom_like f"
  unfolding custom_like_def by blast

lemma clike_id: "custom_like (\<lambda>s. s)"
  by (rule custom_likeI[of _ "{}" "{}" "{}" "{}" "[]"]) (simp add: custom_delta_def)

lemma clike_comp:
  assumes "custom_like f" and "custom_like g"
  shows "custom_like (\<lambda>s. g (f s))"
proof -
  from assms obtain DA AJ RE SC CC DA' AJ' RE' SC' CC' where
    f: "\<And>s. f s = custom_delta DA AJ RE SC CC s" and
    g: "\<And>s. g s = custom_delta DA' AJ' RE' SC' CC' s"
    unfolding custom_like_def by blast
  show ?thesis
    by (rule custom_likeI[of _ "DA \<union> DA'" "AJ \<union> AJ'" "RE \<union> RE'" "SC \<union> SC'" "CC @ CC'"])
       (simp add: f g custom_delta_def Un_assoc)
qed

lemma clike_fold:
  assumes "\<And>x. custom_like (f x)"
  shows "custom_like (fold f xs)"
proof (induction xs)
  case Nil
  show ?case using clike_id by (simp add: id_def)
next
  case (Cons x xs)
  have "custom_like (\<lambda>s. fold f xs (f x s))"
    by (rule clike_comp[OF assms Cons.IH])
  then show ?case by (simp add: comp_def)
qed

lemma clike_data_attr_step: "custom_like (data_attr_step t a)"
  by (rule custom_likeI[of _
        "if startswith a ''data-''
            \<and> \<not> (\<exists>x \<in> set [''elementor'', ''woocommerce'', ''product'']. str_in x a)
         then (case get_attr t a of None \<Rightarrow> {} | Some v \<Rightarrow> {a @ ''='' @ v}) else {}"
        "{}" "{}" "{}" "[]"])
     (simp add: custom_delta_def data_attr_step_def split: option.splits)

lemma clike_data_tag_step: "custom_like (data_tag_step t)"
  unfolding data_tag_step_def[abs_def] by (rule clike_fold) (rule clike_data_attr_step)

lemma clike_ajax_step: "custom_like (ajax_step E x)"
  by (rule custom_likeI[of _ "{}"
        "if str_in ''admin-ajax.php'' x
         then (case re_search E ajax_action_pattern x of
                 Some m \<Rightarrow> {''AJAX action: '' @ m 2}
               | None \<Rightarrow> {if length x > 100 then take 100 (strip x) @ ''...'' else x})
         else {}" "{}" "{}" "[]"])
     (simp add: custom_delta_def ajax_step_def split: option.splits)

lemma clike_rest_step: "custom_like (rest_step E x)"
  by (rule custom_likeI[of _ "{}" "{}"
        "if str_in ''/wp-json/'' x
         then (case re_search E rest_pattern x of Some m \<Rightarrow> {m 1 @ ''/'' @ m 2} | None \<Rightarrow> {})
         else {}" "{}" "[]"])
     (simp add: custom_delta_def rest_step_def split: option.splits)

lemma clike_shortcode_step: "custom_like (shortcode_step E x)"
proof -
  have "custom_like (\<lambda>s'. s'\<lparr>shortcodes := insert sc (shortcodes s')\<rparr>)" for sc
    by (rule custom_likeI[of _ "{}" "{}" "{}" "{sc}" "[]"]) (simp add: custom_delta_def)
  then show ?thesis unfolding shortcode_step_def[abs_def] by (rule clike_fold)
qed

lemma clike_inline_script_step: "custom_like (inline_script_step E t)"
proof (cases "tag_string t = None \<or> tag_string t = Some []")
  case True
  then show ?thesis using clike_id by (auto simp: inline_script_step_def[abs_def])
next
  case False
  then show ?thesis
    using clike_comp[OF clike_comp[OF clike_ajax_step clike_rest_step] clike_shortcode_step,
        of E "tag_text t" E "tag_text t" E "tag_text t"]
    by (auto simp: inline_script_step_def[abs_def])
qed

lemma clike_json_step: "custom_like (json_step E t)"
  by (rule custom_likeI[of _ "{}" "{}" "{}" "{}"
        "case tag_string t of None \<Rightarrow> []
         | Some x \<Rightarrow> if x = [] then []
                     else (case json_str E x of None \<Rightarrow> []
                           | Some j \<Rightarrow> [''JSON data block: '' @ take 100 j @ ''...''])"])
     (simp add: custom_delta_def json_step_def split: option.splits)

lemma clike_custom_js_step: "custom_like (custom_js_step t)"
  by (rule custom_likeI[of _ "{}" "{}" "{}" "{}"
        "case tag_string t of None \<Rightarrow> []
         | Some x \<Rightarrow>
             if get_attr t ''src'' = None \<and> x \<noteq> [] \<and> length (strip x) > 0
                \<and> length (strip x) > 100 \<and> \<not> str_in ''jQuery'' (take 100 (strip x))
                \<and> \<not> str_in ''function('' (take 100 (strip x))
             then [''Custom JS: '' @ take 100 (strip x) @ ''...''] else []"])
     (simp add: custom_delta_def custom_js_step_def Let_def split: option.splits)

lemma clike_detect_custom: "custom_like (detect_custom_functionality E soup)"
proof -
  note c1 = clike_comp[OF clike_fold[of data_tag_step, OF clike_data_tag_step]
                          clike_fold[of "inline_script_step E", OF clike_inline_script_step]]
  note c2 = clike_comp[OF c1 clike_fold[of "json_step E", OF clike_json_step]]
  note c3 = clike_comp[OF c2 clike_fold[of custom_js_step, OF clike_custom_js_step]]
  show ?thesis unfolding detect_custom_functionality_def[abs_def] Let_def
    by (rule c3)
qed

lemma detect_plugins_delta:
  obtains PL CS GB PT CC where
    "\<And>s. detect_plugins_from_html E soup url s = plugin_delta PL (doc_theme_upd E soup) CS GB PT CC s"
  using like_detect_plugins[of E soup url] unfolding plugin_like_def by blast

lemma detect_custom_delta:
  obtains DA AJ RE SC CC where
    "\<And>s. detect_custom_functionality E soup s = custom_delta DA AJ RE SC CC s"
  using clike_detect_custom[of E soup] unfolding custom_like_def by blast

lemma detect_plugins_frame [simp]:
  "max_pages (detect_plugins_from_html E soup url s) = max_pages s"
  "base_url (detect_plugins_from_html E soup url s) = base_url s"
  "visited_urls (detect_plugins_from_html E soup url s) = visited_urls s"
  "request_log (detect_plugins_from_html E soup url s) = request_log s"
  "themes_detected (detect_plugins_from_html E soup url s) = doc_theme_upd E soup (themes_detected s)"
  by (rule detect_plugins_delta[of E soup url], simp add: plugin_delta_def)+

lemma detect_custom_frame [simp]:
  "max_pages (detect_custom_functionality E soup s) = max_pages s"
  "base_url (detect_custom_functionality E soup s) = base_url s"
  "visited_urls (detect_custom_functionality E soup s) = visited_urls s"
  "request_log (detect_custom_functionality E soup s) = request_log s"
  "themes_detected (detect_custom_functionality E soup s) = themes_detected s"
  by (rule detect_custom_delta[of E soup], simp add: custom_delta_def)+

subsection \<open>The crawl loop terminates\<close>

lemma fetch_page_frame:
  assumes "fetch_page E url s = (r, s')"
  shows "max_pages s' = max_pages s" and "base_url s' = base_url s"
    and "themes_detected s' = themes_detected s"
  using assms by (auto simp: fetch_page_def Let_def split: if_splits response.splits)

lemma crawl_step_progress:
  assumes "crawl_step E c = Inr c'"
  shows "max_pages (self c') = max_pages (self c)"
    and "pages_visited c' = pages_visited c + 1
         \<or> (pages_visited c' = pages_visited c \<and> Suc (length (urls_to_visit c')) = length (urls_to_visit c))"
  using assms
  by (auto simp: crawl_step_def Let_def fetch_page_frame
      split: list.splits prod.splits option.splits if_splits sum.splits)

termination crawl_loop
proof (relation "measures [\<lambda>(E, c). nat (max_pages (self c) - pages_visited c),
                           \<lambda>(E, c). length (urls_to_visit c)]", goal_cases)
  case 1
  show ?case by simp
next
  case (2 E c c')
  from crawl_step_progress[OF 2(2)] 2(1) show ?case
    by (auto simp: running_def)
qed

declare crawl_loop.simps [simp del]

subsection \<open>Evaluating the model on examples\<close>

lemmas model_defs =
  init_def page_def a_tag_def script_tag_def inline_script_def link_tag_def
  demo_env_def demo_re_search_def demo_re_match_def demo_urljoin_def demo_netloc_def
  fetch_page_def extract_links_def find_all_def find_all_with_def attr_values_def
  List.map_filter_def get_attr_def has_class_def
  check_plugin_paths_def check_theme_paths_def check_asset_for_plugin_def inferred_evidence_def
  script_step_def link_step_def css_class_step_def class_tag_step_def comment_step_def
  gutenberg_step_def post_type_step_def meta_step_def widget_step_def detect_plugins_from_html_def
  data_attr_step_def data_tag_step_def ajax_step_def rest_step_def shortcode_step_def
  inline_script_step_def json_step_def custom_js_step_def detect_custom_functionality_def
  plugin_path_patterns_def theme_path_patterns_def plugin_patterns_def pattern_to_plugin_def
  add_potential_plugin_from_pattern_def post_type_pattern_def
  isspace_def lower_def lower_char_def Let_def

lemmas run_defs = crawl_loop.simps running_def crawl_step_def start_def slice_to_def model_defs

lemma str_in_replicate: "c \<noteq> p \<Longrightarrow> \<not> str_in (p # ps) (replicate n c)"
  by (induction n) auto

lemma strip_replicate:
  assumes "\<not> isspace c"
  shows "strip (replicate n c) = replicate n c"
proof -
  have "dropWhile isspace (replicate m c) = replicate m c" for m
    using assms by (cases m) auto
  then show ?thesis by (simp add: strip_def)
qed

lemma custom_page_plugins_first:
  "custom_code_indicators
     (detect_custom_functionality offline custom_page
        (detect_plugins_from_html offline custom_page ''https://example.com''
           (init ''https://example.com'' 5 False)))
   = [''Custom Plugin: popsigns'', ''Custom JS: '' @ replicate 100 CHR ''x'' @ ''...'']"
  by (simp add: offline_def custom_page_def model_defs str_in_replicate strip_replicate)

lemma custom_page_custom_first:
  "custom_code_indicators
     (detect_plugins_from_html offline custom_page ''https://example.com''
        (detect_custom_functionality offline custom_page (init ''https://example.com'' 5 False)))
   = [''Custom JS: '' @ replicate 100 CHR ''x'' @ ''...'', ''Custom Plugin: popsigns'']"
  by (simp add: offline_def custom_page_def model_defs str_in_replicate strip_replicate)

subsection \<open>C1: the page budget\<close>

lemma fetch_page_log:
  assumes "fetch_page E url s = (r, s')"
  shows "length (request_log s') \<le> Suc (length (request_log s))"
  using assms by (auto simp: fetch_page_def Let_def split: if_splits response.splits)

lemma slice_to_length: "0 \<le> k \<Longrightarrow> int (length (slice_to xs k)) \<le> k"
  by (simp add: slice_to_def)

lemma crawl_inv_start: "crawl_inv (start (init url N verb))"
  by (simp add: crawl_inv_def start_def init_def Let_def)

lemma budget_step:
  fixes P M L Q L' e :: int
  assumes "2 * (L + (Q + 1)) \<le> 2 + P * (2 * M - P - 1)" and "L' \<le> L + 1" and "e \<le> M - (P + 1)"
  shows "2 * (L' + (Q + e)) \<le> 2 + (P + 1) * (2 * M - (P + 1) - 1)"
proof -
  define X where "X = P * (2 * M - P - 1)"
  have eq: "(P + 1) * (2 * M - (P + 1) - 1) = X + 2 * (M - (P + 1))"
    by (simp add: X_def algebra_simps)
  from assms(1) have "2 * (L + (Q + 1)) \<le> 2 + X" by (simp add: X_def)
  with assms(2,3) show ?thesis unfolding eq by arith
qed

lemma crawl_step_inv:
  assumes run: "running c" and inv: "crawl_inv c" and step: "crawl_step E c = Inr c'"
  shows "crawl_inv c'"
proof -
  from run obtain current_url rest where q: "urls_to_visit c = current_url # rest"
    by (auto simp: running_def neq_Nil_conv)
  from run have lt: "pages_visited c < max_pages (self c)" by (simp add: running_def)
  obtain r s1 where f: "fetch_page E current_url (self c) = (r, s1)" by fastforce
  note fr = fetch_page_frame[OF f] fetch_page_log[OF f]
  from inv q have
    I: "2 * (int (length (request_log (self c))) + (int (length rest) + 1))
        \<le> 2 + pages_visited c * (2 * max_pages (self c) - pages_visited c - 1)"
    and nn: "0 \<le> pages_visited c"
    by (simp_all add: crawl_inv_def)
  have L: "int (length (request_log s1)) \<le> int (length (request_log (self c))) + 1"
    using fr(4) by simp
  show ?thesis
  proof (cases r)
    case None
    with step q f have "c' = c\<lparr>urls_to_visit := rest, self := s1\<rparr>"
      by (simp add: crawl_step_def)
    with inv fr q show ?thesis by (auto simp: crawl_inv_def)
  next
    case (Some soup)
    let ?pv = "pages_visited c + 1"
    let ?s3 = "detect_custom_functionality E soup (detect_plugins_from_html E soup current_url s1)"
    have m: "max_pages ?s3 = max_pages (self c)" and l: "request_log ?s3 = request_log s1"
      using fr by simp_all
    show ?thesis
    proof (cases "?pv < max_pages (self c)")
      case True
      with step q f Some m obtain new_links where
        c': "c' = \<lparr>urls_to_visit = rest @ slice_to new_links (max_pages (self c) - ?pv),
                   pages_visited = ?pv, self = ?s3\<rparr>"
        by (auto simp: crawl_step_def Let_def split: sum.splits)
      have e: "int (length (slice_to new_links (max_pages (self c) - ?pv))) \<le> max_pages (self c) - ?pv"
        using True by (intro slice_to_length) simp
      from budget_step[OF I L e] nn lt show ?thesis
        unfolding crawl_inv_def c' by (simp add: fr(1) l)
    next
      case False
      with step q f Some m have
        c': "c' = \<lparr>urls_to_visit = rest, pages_visited = ?pv, self = ?s3\<rparr>"
        by (auto simp: crawl_step_def Let_def)
      from False lt have e: "(0::int) \<le> max_pages (self c) - ?pv" by simp
      from budget_step[OF I L e] nn lt show ?thesis
        unfolding crawl_inv_def c' by (simp add: fr(1) l)
    qed
  qed
qed

lemma crawl_iter_inv:
  assumes "crawl_inv c" and "crawl_iter E n c = Inr c'"
  shows "crawl_inv c'"
  using assms
proof (induction n arbitrary: c)
  case 0
  then show ?case by simp
next
  case (Suc n)
  show ?case
  proof (cases "running c")
    case True
    with Suc.prems(2) obtain c1 where s: "crawl_step E c = Inr c1" and i: "crawl_iter E n c1 = Inr c'"
      by (auto split: sum.splits)
    from Suc.IH[OF crawl_step_inv[OF True Suc.prems(1) s] i] show ?thesis .
  next
    case False
    with Suc.prems show ?thesis by simp
  qed
qed

lemma crawl_iter_max_pages:
  assumes "crawl_iter E n c = Inr c'"
  shows "max_pages (self c') = max_pages (self c)"
  using assms
proof (induction n arbitrary: c)
  case 0
  then show ?case by simp
next
  case (Suc n)
  then show ?case
    by (cases "running c") (auto split: sum.splits dest: crawl_step_progress(1))
qed

lemma crawl_loop_iter: "\<exists>n. crawl_loop E c = crawl_iter E n c"
proof (induction E c rule: crawl_loop.induct)
  case (1 E c)
  show ?case
  proof (cases "running c")
    case False
    then have "crawl_loop E c = crawl_iter E 0 c" by (simp add: crawl_loop.simps)
    then show ?thesis ..
  next
    case True
    show ?thesis
    proof (cases "crawl_step E c")
      case (Inl e)
      with True have "crawl_loop E c = crawl_iter E (Suc 0) c" by (simp add: crawl_loop.simps)
      then show ?thesis ..
    next
      case (Inr c1)
      from "1.IH"[OF True Inr] obtain n where "crawl_loop E c1 = crawl_iter E n c1" ..
      with True Inr have "crawl_loop E c = crawl_iter E (Suc n) c" by (simp add: crawl_loop.simps)
      then show ?thesis ..
    qed
  qed
qed

lemma consecutive_product: "0 \<le> (k::int) \<Longrightarrow> 0 \<le> k * (k - 1)"
  by (cases "k = 0") (auto intro: mult_nonneg_nonneg)

text \<open>
  C1, as amended. For every budget \<open>N \<ge> 0\<close> and every behaviour of the network, at every
  point of a run at most \<open>N\<close> pages have been analysed, that is, at most \<open>N\<close> fetches have
  returned a document. A fetch attempt that fails does not count against the budget; the
  attempts of a run number at most \<open>1 + N (N - 1) / 2\<close>.
\<close>

theorem crawl_budget_bounds:
  assumes "0 \<le> N" and "crawl_iter E n (start (init url N verb)) = Inr c"
  shows "pages_visited c \<le> N
         \<and> 2 * int (length (request_log (self c))) \<le> 2 + N * (N - 1)"
proof -
  have mp: "max_pages (self c) = N"
    using crawl_iter_max_pages[OF assms(2)] by (simp add: start_def init_def Let_def)
  have inv: "crawl_inv c"
    by (rule crawl_iter_inv[OF crawl_inv_start assms(2)])
  then have pv: "0 \<le> pages_visited c" "pages_visited c \<le> N"
    and b: "2 * (int (length (request_log (self c))) + int (length (urls_to_visit c)))
          \<le> 2 + pages_visited c * (2 * N - pages_visited c - 1)"
    using assms(1) by (auto simp: crawl_inv_def mp)
  have "N * (N - 1) - pages_visited c * (2 * N - pages_visited c - 1)
        = (N - pages_visited c) * (N - pages_visited c - 1)"
    by (simp add: algebra_simps)
  moreover have "0 \<le> (N - pages_visited c) * (N - pages_visited c - 1)"
    using pv by (intro consecutive_product) simp
  ultimately have "pages_visited c * (2 * N - pages_visited c - 1) \<le> N * (N - 1)" by linarith
  moreover have "2 * int (length (request_log (self c)))
      \<le> 2 * (int (length (request_log (self c))) + int (length (urls_to_visit c)))" by simp
  ultimately have "2 * int (length (request_log (self c))) \<le> 2 + N * (N - 1)"
    using b by linarith
  with pv show ?thesis by simp
qed



lemma shop_iter4:
  "crawl_iter (demo_env shop_site) (Suc (Suc (Suc (Suc 0)))) (start (init ''https://example.com'' 3 False))
   = Inr shop_final"
  by (simp add: shop_site_def shop_final_def run_defs insert_commute)

lemma shop_run:
  "crawl_loop (demo_env shop_site) (start (init ''https://example.com'' 3 False)) = Inr shop_final"
  by (simp add: shop_site_def shop_final_def run_defs insert_commute)

text \<open>The bounds at the end of the crawl of the shop with a budget of 3 pages.\<close>

theorem crawl_budget_bounds_witness:
  "(0::int) \<le> 3
   \<and> crawl_iter (demo_env shop_site) (Suc (Suc (Suc (Suc 0)))) (start (init ''https://example.com'' 3 False))
       = Inr shop_final
   \<and> pages_visited shop_final \<le> 3
   \<and> 2 * int (length (request_log (self shop_final))) \<le> 2 + 3 * (3 - 1)"
  using crawl_budget_bounds[of 3 "demo_env shop_site" "Suc (Suc (Suc (Suc 0)))"
      "''https://example.com''" False shop_final] shop_iter4
  by simp

text \<open>
  C1 as stated fails: with a budget of 3 pages the crawl of the shop sends 4 requests,
  two of them answered with 404.
\<close>

theorem fetch_attempts_counterexample:
  "crawl_loop (demo_env shop_site) (start (init ''https://example.com'' 3 False)) = Inr shop_final
   \<and> max_pages (self shop_final) = 3
   \<and> length (request_log (self shop_final)) = 4"
  using shop_run by (simp add: shop_final_def init_def)

subsection \<open>C2: what the page fetcher marks as visited\<close>

text \<open>Where a response came back, whatever its status, the URL is in the visited set.\<close>

lemma fetch_page_marks_response:
  assumes "http_get E (length (request_log s)) url = Response status body"
  shows "url \<in> visited_urls (snd (fetch_page E url s))"
  using assms by (simp add: fetch_page_def Let_def)

text \<open>When no request raises, no URL is requested twice within a run.\<close>

lemma fetch_page_keeps_log_distinct:
  assumes "\<And>n u. http_get E n u \<noteq> RequestException"
    and "distinct (request_log s) \<and> set (request_log s) \<subseteq> visited_urls s"
    and "fetch_page E url s = (r, s')"
  shows "distinct (request_log s') \<and> set (request_log s') \<subseteq> visited_urls s'"
proof (cases "url \<in> visited_urls s")
  case True
  with assms(2,3) show ?thesis by (simp add: fetch_page_def)
next
  case False
  from assms(1) obtain status body where
    "http_get E (length (request_log s)) url = Response status body"
    by (cases "http_get E (length (request_log s)) url") auto
  with False assms(2,3) show ?thesis
    by (auto simp: fetch_page_def Let_def split: if_splits)
qed

lemma crawl_step_keeps_log_distinct:
  assumes "\<And>n u. http_get E n u \<noteq> RequestException"
    and "distinct (request_log (self c)) \<and> set (request_log (self c)) \<subseteq> visited_urls (self c)"
    and "crawl_step E c = Inr c'"
  shows "distinct (request_log (self c')) \<and> set (request_log (self c')) \<subseteq> visited_urls (self c')"
proof (cases "urls_to_visit c")
  case Nil
  with assms(3) show ?thesis by (simp add: crawl_step_def)
next
  case (Cons current_url rest)
  obtain r s1 where f: "fetch_page E current_url (self c) = (r, s1)" by fastforce
  note k = fetch_page_keeps_log_distinct[OF assms(1,2) f]
  from assms(3) Cons f have
    "self c' = s1 \<or> (\<exists>soup. self c' = detect_custom_functionality E soup
                          (detect_plugins_from_html E soup current_url s1))"
    by (auto simp: crawl_step_def Let_def split: option.splits if_splits sum.splits)
  with k show ?thesis by auto
qed

lemma no_refetch_without_exceptions:
  assumes "\<And>n u. http_get E n u \<noteq> RequestException"
    and "crawl_iter E n (start (init url N verb)) = Inr c"
  shows "distinct (request_log (self c))"
proof -
  have "distinct (request_log (self c')) \<and> set (request_log (self c')) \<subseteq> visited_urls (self c')"
    if "distinct (request_log (self c0)) \<and> set (request_log (self c0)) \<subseteq> visited_urls (self c0)"
      and "crawl_iter E n c0 = Inr c'" for c0 c'
    using that
  proof (induction n arbitrary: c0)
    case 0
    then show ?case by simp
  next
    case (Suc n)
    show ?case
    proof (cases "running c0")
      case True
      with Suc.prems(2) obtain c1 where s: "crawl_step E c0 = Inr c1" and i: "crawl_iter E n c1 = Inr c'"
        by (auto split: sum.splits)
      from Suc.IH[OF crawl_step_keeps_log_distinct[OF assms(1) Suc.prems(1) s] i] show ?thesis .
    next
      case False
      with Suc.prems show ?thesis by simp
    qed
  qed
  from this[OF _ assms(2)] show ?thesis by (simp add: start_def init_def Let_def)
qed

lemma down_run:
  "crawl_loop (demo_env down_site) (start (init ''https://example.com'' 3 False)) = Inr down_final"
  by (simp add: down_site_def down_final_def run_defs)

text \<open>
  C2 asks that \<^verbatim>\<open>fetch_page\<close> add the URL to the visited set whatever the outcome, so that
  no URL is fetched twice. The code does so when a response came back; when the request
  raises, \<^verbatim>\<open>visited_urls.add(url)\<close> is skipped: the fetch of the URL of the example leaves
  the visited set as it was, and the crawl, which finds the URL twice in the frontier,
  requests it twice.
\<close>

theorem failed_request_not_marked_visited:
  "fetch_page (demo_env down_site) ''https://example.com/down'' (init ''https://example.com'' 3 False)
     = (None, (init ''https://example.com'' 3 False)\<lparr>request_log := [''https://example.com/down'']\<rparr>)
   \<and> ''https://example.com/down''
       \<notin> visited_urls (snd (fetch_page (demo_env down_site) ''https://example.com/down''
                                (init ''https://example.com'' 3 False)))
   \<and> crawl_loop (demo_env down_site) (start (init ''https://example.com'' 3 False)) = Inr down_final
   \<and> count_list (request_log (self down_final)) ''https://example.com/down'' = 2"
  using down_run by (simp add: down_site_def down_final_def model_defs)

subsection \<open>C3: the parent of a child theme\<close>

lemma theme_upd_mono: "T \<subseteq> theme_upd E a T"
  by (auto simp: theme_upd_def Let_def split: option.splits)

lemma theme_upd_found: "first_match E theme_path_patterns a = Some n \<Longrightarrow> theme_upd E a T \<noteq> {}"
  by (auto simp: theme_upd_def Let_def)

lemma theme_upd_inv:
  assumes "first_match E theme_path_patterns a \<in> {None, Some ''my-theme-child''}" and "theme_inv T"
  shows "theme_inv (theme_upd E a T)"
proof (cases "first_match E theme_path_patterns a")
  case None
  with assms(2) show ?thesis by (simp add: theme_upd_def)
next
  case (Some n)
  with assms(1) have n: "first_match E theme_path_patterns a = Some ''my-theme-child''" by simp
  have r: "replace ''my-theme-child'' ''-child'' [] = ''my-theme''" by simp
  have c: "str_in ''-child'' ''my-theme-child''" by simp
  show ?thesis
  proof (cases "''my-theme'' \<in> fst ` insert (''my-theme-child'', a) T")
    case True
    then have "(''my-theme'', inferred_evidence) \<in> T"
      using assms(2) by (auto simp: theme_inv_def)
    with assms(2) True show ?thesis
      by (simp add: theme_upd_def n Let_def r c del: replace.simps str_in.simps) (auto simp: theme_inv_def)
  next
    case False
    with assms(2) show ?thesis
      by (simp add: theme_upd_def n Let_def r c del: replace.simps str_in.simps) (auto simp: theme_inv_def)
  qed
qed

lemma fold_tag_theme_upd_mono: "T \<subseteq> fold (tag_theme_upd E a) ts T"
proof (induction ts arbitrary: T)
  case Nil
  show ?case by simp
next
  case (Cons t ts)
  have "T \<subseteq> tag_theme_upd E a t T"
    using theme_upd_mono by (simp add: tag_theme_upd_def split: option.splits)
  with Cons[of "tag_theme_upd E a t T"] show ?case by auto
qed

lemma doc_theme_upd_mono: "T \<subseteq> doc_theme_upd E soup T"
  unfolding doc_theme_upd_def using fold_tag_theme_upd_mono by blast

lemma fold_tag_theme_upd_inv:
  assumes "\<And>t u. t \<in> set ts \<Longrightarrow> get_attr t a = Some u
             \<Longrightarrow> first_match E theme_path_patterns u \<in> {None, Some ''my-theme-child''}"
    and "theme_inv T"
  shows "theme_inv (fold (tag_theme_upd E a) ts T)"
  using assms
proof (induction ts arbitrary: T)
  case Nil
  then show ?case by simp
next
  case (Cons t ts)
  have "theme_inv (tag_theme_upd E a t T)"
  proof (cases "get_attr t a")
    case None
    with Cons.prems(2) show ?thesis by (simp add: tag_theme_upd_def)
  next
    case (Some u)
    from Cons.prems(1)[of t u] Some
    have "first_match E theme_path_patterns u \<in> {None, Some ''my-theme-child''}" by simp
    from theme_upd_inv[OF this Cons.prems(2)] Some show ?thesis by (simp add: tag_theme_upd_def)
  qed
  then have "theme_inv (fold (tag_theme_upd E a) ts (tag_theme_upd E a t T))"
    by (intro Cons.IH Cons.prems(1)) simp_all
  then show ?case by simp
qed

lemma attr_values_Cons:
  "attr_values a (t # ts)
   = (case get_attr t a of None \<Rightarrow> attr_values a ts | Some v \<Rightarrow> v # attr_values a ts)"
  by (simp add: attr_values_def List.map_filter_def split: option.splits)

lemma attr_values_mem: "t \<in> set ts \<Longrightarrow> get_attr t a = Some u \<Longrightarrow> u \<in> set (attr_values a ts)"
  by (induction ts) (auto simp: attr_values_Cons split: option.splits)

lemma doc_theme_upd_inv:
  assumes "only_theme E ''my-theme-child'' soup" and "theme_inv T"
  shows "theme_inv (doc_theme_upd E soup T)"
  unfolding doc_theme_upd_def
  by (intro fold_tag_theme_upd_inv assms(2))
     (use assms(1) in \<open>auto simp: only_theme_def asset_urls_def dest: attr_values_mem\<close>)

lemma fold_tag_theme_upd_found:
  assumes "u \<in> set (attr_values a ts)" and "first_match E theme_path_patterns u = Some n"
  shows "fold (tag_theme_upd E a) ts T \<noteq> {}"
  using assms(1)
proof (induction ts arbitrary: T)
  case Nil
  then show ?case by (simp add: attr_values_def List.map_filter_def)
next
  case (Cons t ts)
  show ?case
  proof (cases "get_attr t a = Some u")
    case True
    then have "tag_theme_upd E a t T \<noteq> {}"
      using theme_upd_found[OF assms(2)] by (simp add: tag_theme_upd_def)
    with fold_tag_theme_upd_mono[of "tag_theme_upd E a t T" E a ts] show ?thesis by auto
  next
    case False
    with Cons.prems have "u \<in> set (attr_values a ts)"
      by (auto simp: attr_values_Cons split: option.splits)
    from Cons.IH[OF this] show ?thesis by simp
  qed
qed

lemma doc_theme_upd_found:
  assumes "u \<in> set (asset_urls soup)" and "first_match E theme_path_patterns u = Some n"
  shows "doc_theme_upd E soup T \<noteq> {}"
proof (cases "u \<in> set (attr_values ''src'' (find_all_with soup ''script'' ''src''))")
  case True
  from fold_tag_theme_upd_found[OF True assms(2)]
    fold_tag_theme_upd_mono[of "fold (tag_theme_upd E ''src'') (find_all_with soup ''script'' ''src'') T"
      E "''href''" "find_all_with soup ''link'' ''href''"]
  show ?thesis unfolding doc_theme_upd_def by auto
next
  case False
  with assms(1) have "u \<in> set (attr_values ''href'' (find_all_with soup ''link'' ''href''))"
    by (simp add: asset_urls_def)
  from fold_tag_theme_upd_found[OF this assms(2)] show ?thesis unfolding doc_theme_upd_def .
qed


lemma fetch_page_document:
  assumes "fetch_page E url s = (Some soup, s1)"
  shows "\<exists>n. http_get E n url = Response 200 (Some soup)"
  using assms by (auto simp: fetch_page_def Let_def split: if_splits response.splits)

lemma crawl_step_document:
  assumes "urls_to_visit c = u # rest" and "fetch_page E u (self c) = (Some soup, s1)"
    and "crawl_step E c = Inr c'"
  shows "self c' = detect_custom_functionality E soup (detect_plugins_from_html E soup u s1)"
  using assms by (auto simp: crawl_step_def Let_def split: if_splits sum.splits)

lemma crawl_step_theme_inv:
  assumes pages: "site_only_theme E ''my-theme-child''"
    and inv: "theme_inv (themes_detected (self c))"
    and step: "crawl_step E c = Inr c'"
  shows "theme_inv (themes_detected (self c')) \<and> themes_detected (self c) \<subseteq> themes_detected (self c')"
proof (cases "urls_to_visit c")
  case Nil
  with step show ?thesis by (simp add: crawl_step_def)
next
  case (Cons current_url rest)
  obtain r s1 where f: "fetch_page E current_url (self c) = (r, s1)" by fastforce
  note fr = fetch_page_frame[OF f]
  show ?thesis
  proof (cases r)
    case None
    with step Cons f have "self c' = s1" by (auto simp: crawl_step_def)
    with inv fr show ?thesis by simp
  next
    case (Some soup)
    with step Cons f have
      "self c' = detect_custom_functionality E soup (detect_plugins_from_html E soup current_url s1)"
      by (auto simp: crawl_step_def Let_def split: if_splits sum.splits)
    then have t: "themes_detected (self c') = doc_theme_upd E soup (themes_detected (self c))"
      using fr by simp
    from fetch_page_document f Some obtain n where "http_get E n current_url = Response 200 (Some soup)"
      by blast
    with pages have "only_theme E ''my-theme-child'' soup"
      unfolding site_only_theme_def by blast
    from doc_theme_upd_inv[OF this inv] doc_theme_upd_mono[of "themes_detected (self c)" E soup]
    show ?thesis unfolding t by simp
  qed
qed

lemma crawl_iter_theme_inv:
  assumes pages: "site_only_theme E ''my-theme-child''"
    and "theme_inv (themes_detected (self c))"
    and "crawl_iter E k c = Inr c'"
  shows "theme_inv (themes_detected (self c')) \<and> themes_detected (self c) \<subseteq> themes_detected (self c')"
  using assms(2,3)
proof (induction k arbitrary: c)
  case 0
  then show ?case by simp
next
  case (Suc k)
  show ?case
  proof (cases "running c")
    case True
    with Suc.prems(2) obtain c1 where s: "crawl_step E c = Inr c1" and i: "crawl_iter E k c1 = Inr c'"
      by (auto split: sum.splits)
    from crawl_step_theme_inv[OF pages Suc.prems(1) s]
    have a: "theme_inv (themes_detected (self c1))" and b: "themes_detected (self c) \<subseteq> themes_detected (self c1)"
      by simp_all
    from Suc.IH[OF a i] b show ?thesis by auto
  next
    case False
    with Suc.prems show ?thesis by simp
  qed
qed

lemma derive_child_parent:
  assumes inv: "theme_inv (themes_detected s)" and ne: "themes_detected s \<noteq> {}"
    and it: "set (iter_pair E (themes_detected s)) = themes_detected s"
  shows "derive_themes E s = s\<lparr>child_theme := Some ''my-theme-child'', main_theme := Some ''my-theme''\<rparr>"
proof -
  define ns where "ns = map fst (iter_pair E (themes_detected s))"
  have "set ns = fst ` themes_detected s" by (simp add: ns_def it)
  also have "\<dots> = {''my-theme-child'', ''my-theme''}"
    using inv ne by (force simp: theme_inv_def)
  finally have sn: "set ns = {''my-theme-child'', ''my-theme''}" .
  have "card (set ns) = 2" by (simp add: sn)
  with card_length[of ns] have len: "2 \<le> length ns" by simp
  have sel: "str_in ''-child'' x \<longleftrightarrow> x = ''my-theme-child''" if "x \<in> set ns" for x
    using that unfolding sn by auto
  have "filter (str_in ''-child'') ns \<noteq> []"
    using sn sel by (auto simp: filter_empty_conv)
  moreover from this have "hd (filter (str_in ''-child'') ns) \<in> set (filter (str_in ''-child'') ns)"
    by (rule hd_in_set)
  then have hd: "hd (filter (str_in ''-child'') ns) = ''my-theme-child''"
    using sel by auto
  moreover have "replace ''my-theme-child'' ''-child'' [] = ''my-theme''" by simp
  moreover have "''my-theme'' \<in> set ns" by (simp add: sn)
  ultimately show ?thesis
    using len unfolding derive_themes_def Let_def ns_def[symmetric]
    by (simp del: replace.simps str_in.simps)
qed

text \<open>
  C3. In a crawl whose pages have no theme-path match but \<^verbatim>\<open>my-theme-child\<close>, and whose home
  page has one, the theme evidence in the end holds \<^verbatim>\<open>my-theme\<close> with the evidence string
  of an inferred parent, \<^verbatim>\<open>child_theme\<close> is \<^verbatim>\<open>my-theme-child\<close> and \<^verbatim>\<open>main_theme\<close> is
  \<^verbatim>\<open>my-theme\<close>, in whatever order the set of evidence is iterated.
\<close>

theorem child_theme_inference:
  assumes pages: "site_only_theme E ''my-theme-child''"
    and home: "http_get E 0 (base_url (self (start (init url N verb)))) = Response 200 (Some home_page)"
    and found: "\<exists>a \<in> set (asset_urls home_page).
                  first_match E theme_path_patterns a = Some ''my-theme-child''"
    and budget: "1 \<le> N"
    and iter: "\<And>T. finite T \<Longrightarrow> set (iter_pair E T) = T"
    and run: "analyze_site E (init url N verb) = Inr s"
  shows "(''my-theme'', inferred_evidence) \<in> themes_detected s
         \<and> child_theme s = Some ''my-theme-child'' \<and> main_theme s = Some ''my-theme''"
proof -
  let ?c0 = "start (init url N verb)"
  from run obtain c where loop: "crawl_loop E ?c0 = Inr c" and s: "s = derive_themes E (self c)"
    by (auto simp: analyze_site_def split: sum.splits)
  have r0: "running ?c0" using budget by (simp add: running_def start_def init_def Let_def)
  have q0: "urls_to_visit ?c0 = [base_url (self ?c0)]" "visited_urls (self ?c0) = {}"
    "request_log (self ?c0) = []" "themes_detected (self ?c0) = {}"
    by (simp_all add: start_def init_def Let_def)
  from loop r0 obtain c1 where step: "crawl_step E ?c0 = Inr c1" and loop1: "crawl_loop E c1 = Inr c"
    by (subst (asm) crawl_loop.simps) (auto split: sum.splits)
  have inv0: "theme_inv (themes_detected (self ?c0))" by (simp add: q0 theme_inv_def)
  have f0: "fetch_page E (base_url (self ?c0)) (self ?c0)
            = (Some home_page, (self ?c0)\<lparr>request_log := [base_url (self ?c0)],
                                          visited_urls := {base_url (self ?c0)}\<rparr>)"
    using home by (simp add: fetch_page_def q0 Let_def)
  from crawl_step_document[OF q0(1) f0 step]
  have "themes_detected (self c1) = doc_theme_upd E home_page (themes_detected (self ?c0))"
    by simp
  moreover from found obtain a where "a \<in> set (asset_urls home_page)"
    and "first_match E theme_path_patterns a = Some ''my-theme-child''" by blast
  ultimately have ne1: "themes_detected (self c1) \<noteq> {}"
    using doc_theme_upd_found by simp
  note inv1 = crawl_step_theme_inv[OF pages inv0 step]
  from crawl_loop_iter[of E c1] obtain k where "crawl_loop E c1 = crawl_iter E k c1" ..
  with loop1 have "crawl_iter E k c1 = Inr c" by simp
  from crawl_iter_theme_inv[OF pages conjunct1[OF inv1] this]
  have inv: "theme_inv (themes_detected (self c))" and sub: "themes_detected (self c1) \<subseteq> themes_detected (self c)"
    by simp_all
  from sub ne1 have ne: "themes_detected (self c) \<noteq> {}" by auto
  from inv have "finite (themes_detected (self c))" by (simp add: theme_inv_def)
  from derive_child_parent[OF inv ne iter[OF this]] s inv ne show ?thesis
    by (simp add: theme_inv_def)
qed

lemma theme_run:
  "crawl_loop (demo_env theme_site) (start (init ''https://example.com'' 5 False)) = Inr theme_final"
  by (simp add: theme_site_def theme_page_def theme_final_def run_defs insert_commute)

lemma demo_http_get: "http_get (demo_env site) n url = site url"
  by (simp add: demo_env_def)

lemma theme_page_assets: "asset_urls theme_page = [''/wp-content/themes/my-theme-child/style.css'']"
  by (simp add: asset_urls_def theme_page_def model_defs)

lemma theme_page_match:
  "first_match (demo_env site) theme_path_patterns ''/wp-content/themes/my-theme-child/style.css''
   = Some ''my-theme-child''"
  by (simp add: model_defs)

lemma theme_site_only: "site_only_theme (demo_env theme_site) ''my-theme-child''"
  unfolding site_only_theme_def demo_http_get
  by (auto simp: theme_site_def only_theme_def theme_page_assets theme_page_match split: if_splits)

lemma theme_page_found:
  "\<exists>a \<in> set (asset_urls theme_page).
     first_match (demo_env theme_site) theme_path_patterns a = Some ''my-theme-child''"
  by (simp add: theme_page_assets theme_page_match)

lemma theme_home:
  "http_get (demo_env theme_site) 0 (base_url (self (start (init ''https://example.com'' 5 False))))
   = Response 200 (Some theme_page)"
  by (simp add: theme_site_def run_defs)

lemma theme_analyze:
  "analyze_site (demo_env theme_site) (init ''https://example.com'' 5 False)
   = Inr (derive_themes (demo_env theme_site) (self theme_final))"
  by (simp add: analyze_site_def theme_run)

lemma demo_iter_pair: "finite T \<Longrightarrow> set (iter_pair (demo_env site) T) = T"
  by (simp add: demo_env_def)

text \<open>The site whose home page loads the style sheet of \<^verbatim>\<open>my-theme-child\<close> meets the conditions.\<close>

theorem child_theme_inference_witness:
  "http_get (demo_env theme_site) 0 (base_url (self (start (init ''https://example.com'' 5 False))))
     = Response 200 (Some theme_page)
   \<and> analyze_site (demo_env theme_site) (init ''https://example.com'' 5 False)
     = Inr (derive_themes (demo_env theme_site) (self theme_final))
   \<and> (''my-theme'', inferred_evidence)
       \<in> themes_detected (derive_themes (demo_env theme_site) (self theme_final))
   \<and> child_theme (derive_themes (demo_env theme_site) (self theme_final)) = Some ''my-theme-child''
   \<and> main_theme (derive_themes (demo_env theme_site) (self theme_final)) = Some ''my-theme''"
  using child_theme_inference[OF theme_site_only theme_home theme_page_found _ demo_iter_pair theme_analyze]
    theme_home theme_analyze
  by simp

lemma theme_derived:
  "derive_themes (demo_env theme_site) (self theme_final)
   = (self theme_final)\<lparr>child_theme := Some ''my-theme-child'', main_theme := Some ''my-theme''\<rparr>"
  by code_simp

subsection \<open>C4: what is enqueued\<close>





subsection \<open>C5: the crawl ends and a report is produced\<close>

text \<open>
  The loop ends for every input: \<open>crawl_loop\<close> is a total function. When \<^verbatim>\<open>urljoin\<close> and
  \<^verbatim>\<open>urlparse\<close> raise on no link, the run ends without an exception and the report is
  returned; with every collection empty the report says that nothing was detected.
\<close>

lemma links_loop_total:
  assumes "\<And>b u. urljoin E b u \<noteq> None" and "\<And>u. urlparse_netloc E u \<noteq> None"
  shows "\<exists>links. links_loop E domain cur visited hrefs acc = Inr links"
proof (induction hrefs arbitrary: acc)
  case Nil
  show ?case by simp
next
  case (Cons href hrefs)
  from assms obtain full nl where "urljoin E cur href = Some full" "urlparse_netloc E full = Some nl"
    by (metis option.exhaust)
  with Cons show ?case by simp
qed

lemma extract_links_total:
  assumes "\<And>b u. urljoin E b u \<noteq> None" and "\<And>u. urlparse_netloc E u \<noteq> None"
  shows "\<exists>links. extract_links E soup cur s = Inr links"
proof -
  from assms(2) obtain domain where "urlparse_netloc E (base_url s) = Some domain" by fastforce
  with links_loop_total[OF assms] show ?thesis by (simp add: extract_links_def)
qed

lemma crawl_step_total:
  assumes "\<And>b u. urljoin E b u \<noteq> None" and "\<And>u. urlparse_netloc E u \<noteq> None" and "running c"
  shows "\<exists>c'. crawl_step E c = Inr c'"
proof -
  from assms(3) obtain current_url rest where q: "urls_to_visit c = current_url # rest"
    by (auto simp: running_def neq_Nil_conv)
  obtain r s1 where f: "fetch_page E current_url (self c) = (r, s1)" by fastforce
  show ?thesis
  proof (cases r)
    case None
    with q f show ?thesis by (simp add: crawl_step_def)
  next
    case (Some soup)
    from extract_links_total[OF assms(1,2)] obtain links where
      "extract_links E soup current_url
         (detect_custom_functionality E soup (detect_plugins_from_html E soup current_url s1)) = Inr links"
      by blast
    with q f Some show ?thesis by (simp add: crawl_step_def Let_def)
  qed
qed

lemma crawl_loop_total:
  assumes "\<And>b u. urljoin E b u \<noteq> None" and "\<And>u. urlparse_netloc E u \<noteq> None"
  shows "\<exists>c'. crawl_loop E c = Inr c'"
  using assms
proof (induction E c rule: crawl_loop.induct)
  case (1 E c)
  show ?case
  proof (cases "running c")
    case False
    then show ?thesis by (simp add: crawl_loop.simps)
  next
    case True
    from crawl_step_total[OF "1.prems" True] obtain c1 where s: "crawl_step E c = Inr c1" by blast
    from "1.IH"[OF True s "1.prems"] True s show ?thesis by (simp add: crawl_loop.simps)
  qed
qed

lemma main_reports:
  assumes "\<And>b u. urljoin E b u \<noteq> None" and "\<And>u. urlparse_netloc E u \<noteq> None"
  shows "\<exists>s. analyze_site E (init url pages verb) = Inr s
            \<and> main E url pages False verb = Inr (report_text E s)"
proof -
  from crawl_loop_total[OF assms] obtain c where "crawl_loop E (start (init url pages verb)) = Inr c"
    by blast
  then show ?thesis by (simp add: main_def analyze_site_def generate_report_def)
qed

lemma empty_report:
  assumes "plugins_detected s = {}" "themes_detected s = {}" "gutenberg_blocks s = {}"
    "custom_post_types s = {}" "rest_endpoints s = {}" "shortcodes s = {}"
    "custom_data_attributes s = {}" "ajax_calls s = {}" "custom_code_indicators s = []"
    "css_classes s = {}"
  shows "report_text E s =
     header_section s
     @ ''\<newline>\<newline>'' @ glyph_none @ '' No plugins were detected from front-end assets.''
     @ ''\<newline>\<newline>'' @ glyph_none @ '' No WordPress theme detected.''
     @ ''\<newline>\<newline>'' @ glyph_custom @ '' **Potential Custom Functionality:**''
     @ ''\<newline>\<newline>'' @ glyph_complete @ '' **Analysis Complete!** '' @ glyph_complete"
  using assms
  by (simp add: report_text_def plugins_section_def theme_section_def custom_plugins_section_def
      blocks_section_def post_types_section_def rest_section_def shortcodes_section_def
      data_attributes_section_def ajax_section_def indicators_section_def css_section_def)

text \<open>
  C5 asks that no condition inside the crawl be fatal. \<^verbatim>\<open>extract_links\<close> calls
  \<^verbatim>\<open>urljoin\<close> and \<^verbatim>\<open>urlparse\<close> outside every \<^verbatim>\<open>try\<close>: on a home page with the link
  \<^verbatim>\<open><a href="http://[">\<close> the \<^verbatim>\<open>ValueError\<close> of \<^verbatim>\<open>urljoin\<close> leaves \<^verbatim>\<open>analyze_site\<close> and
  \<^verbatim>\<open>main\<close>, and no report is produced.
\<close>

theorem malformed_link_aborts_run:
  "crawl_step (demo_env bad_link_site) (start (init ''https://example.com'' 5 False)) = Inl ValueError
   \<and> analyze_site (demo_env bad_link_site) (init ''https://example.com'' 5 False) = Inl ValueError
   \<and> main (demo_env bad_link_site) ''https://example.com'' 5 False False = Inl ValueError"
  by (simp add: main_def analyze_site_def bad_link_site_def run_defs)

subsection \<open>C6: the link extractor\<close>

lemma links_loop_result:
  assumes "links_loop E domain cur visited hrefs acc = Inr links"
  shows "\<exists>new hs. links = acc @ new \<and> subseq hs hrefs \<and> map (urljoin E cur) hs = map Some new
           \<and> (\<forall>h \<in> set hs. \<not> startswith h ''#'')
           \<and> (\<forall>u \<in> set new. (startswith u ''http://'' \<or> startswith u ''https://'')
                  \<and> urlparse_netloc E u = Some domain \<and> u \<notin> visited)"
  using assms
proof (induction hrefs arbitrary: acc)
  case Nil
  then show ?case by simp
next
  case (Cons href hrefs)
  from Cons.prems obtain full nl where
    j: "urljoin E cur href = Some full" and p: "urlparse_netloc E full = Some nl"
    by (auto split: option.splits)
  let ?keep = "\<not> (nl \<noteq> domain \<or> startswith href ''#''
                  \<or> \<not> (startswith full ''http://'' \<or> startswith full ''https://''))
               \<and> full \<notin> visited"
  show ?case
  proof (cases ?keep)
    case False
    with Cons.prems j p have "links_loop E domain cur visited hrefs acc = Inr links"
      by (auto split: if_splits)
    from Cons.IH[OF this] obtain new hs where
      "links = acc @ new" "subseq hs hrefs" "map (urljoin E cur) hs = map Some new"
      "\<forall>h \<in> set hs. \<not> startswith h ''#''"
      "\<forall>u \<in> set new. (startswith u ''http://'' \<or> startswith u ''https://'')
                  \<and> urlparse_netloc E u = Some domain \<and> u \<notin> visited"
      by blast
    then show ?thesis
      by - (rule exI[of _ new], rule exI[of _ hs], auto intro: list_emb_Cons)
  next
    case True
    with Cons.prems j p have "links_loop E domain cur visited hrefs (acc @ [full]) = Inr links"
      by (auto split: if_splits)
    from Cons.IH[OF this] obtain new hs where
      "links = (acc @ [full]) @ new" "subseq hs hrefs" "map (urljoin E cur) hs = map Some new"
      "\<forall>h \<in> set hs. \<not> startswith h ''#''"
      "\<forall>u \<in> set new. (startswith u ''http://'' \<or> startswith u ''https://'')
                  \<and> urlparse_netloc E u = Some domain \<and> u \<notin> visited"
      by blast
    with True j p show ?thesis
      by - (rule exI[of _ "full # new"], rule exI[of _ "href # hs"], auto)
  qed
qed

text \<open>
  C6. Every URL that \<^verbatim>\<open>extract_links\<close> returns starts with \<^verbatim>\<open>http://\<close> or \<^verbatim>\<open>https://\<close>,
  has the network location of the site under analysis, and is not in the visited set; the
  URLs returned are, in this order, the resolved \<^verbatim>\<open>href\<close> values of a subsequence of the
  links of the document, none of which is an in-page anchor.
\<close>

theorem extract_links_sound:
  assumes "extract_links E soup current_url s = Inr links"
  shows "(\<forall>u \<in> set links. (startswith u ''http://'' \<or> startswith u ''https://'')
            \<and> urlparse_netloc E u = urlparse_netloc E (base_url s)
            \<and> u \<notin> visited_urls s)
         \<and> (\<exists>hrefs. subseq hrefs (attr_values ''href'' (find_all_with soup ''a'' ''href''))
               \<and> (\<forall>h \<in> set hrefs. \<not> startswith h ''#'')
               \<and> map (urljoin E current_url) hrefs = map Some links)"
proof -
  from assms obtain domain where d: "urlparse_netloc E (base_url s) = Some domain"
    and l: "links_loop E domain current_url (visited_urls s)
              (attr_values ''href'' (find_all_with soup ''a'' ''href'')) [] = Inr links"
    by (auto simp: extract_links_def split: option.splits)
  from links_loop_result[OF l] d show ?thesis by auto
qed

lemma links_page_links:
  "extract_links offline links_page ''https://example.com'' home_visited
   = Inr [''https://example.com/shop'', ''https://example.com/cart'', ''https://example.com/shop'']"
  by (simp add: offline_def links_page_def home_visited_def model_defs)

text \<open>The links of the example page, extracted after the home page was visited.\<close>

theorem extract_links_sound_witness:
  "extract_links offline links_page ''https://example.com'' home_visited
     = Inr [''https://example.com/shop'', ''https://example.com/cart'', ''https://example.com/shop'']
   \<and> (startswith ''https://example.com/cart'' ''http://''
        \<or> startswith ''https://example.com/cart'' ''https://'')
   \<and> urlparse_netloc offline ''https://example.com/cart''
       = urlparse_netloc offline (base_url home_visited)
   \<and> ''https://example.com/cart'' \<notin> visited_urls home_visited
   \<and> (\<exists>hrefs. subseq hrefs (attr_values ''href'' (find_all_with links_page ''a'' ''href''))
         \<and> (\<forall>h \<in> set hrefs. \<not> startswith h ''#'')
         \<and> map (urljoin offline ''https://example.com'') hrefs
            = map Some [''https://example.com/shop'', ''https://example.com/cart'',
                        ''https://example.com/shop''])"
  using extract_links_sound[OF links_page_links] links_page_links by simp

subsection \<open>C7: the order of the detectors\<close>

text \<open>
  C7, as amended. For every page and every starting state, the two detectors run in
  either order give the same state in every field but \<open>custom_code_indicators\<close>, and that
  list holds the same entries in both orders, counted with repetition; their order in the
  list follows the order of the detectors.
\<close>

theorem detectors_commute_up_to_indicator_order:
  "(detect_custom_functionality E soup (detect_plugins_from_html E soup url s))
      \<lparr>custom_code_indicators := []\<rparr>
   = (detect_plugins_from_html E soup url (detect_custom_functionality E soup s))
      \<lparr>custom_code_indicators := []\<rparr>
   \<and> mset (custom_code_indicators
              (detect_custom_functionality E soup (detect_plugins_from_html E soup url s)))
     = mset (custom_code_indicators
              (detect_plugins_from_html E soup url (detect_custom_functionality E soup s)))"
proof -
  obtain PL CS GB PT CC where
    p: "\<And>s. detect_plugins_from_html E soup url s
             = plugin_delta PL (doc_theme_upd E soup) CS GB PT CC s"
    using like_detect_plugins[of E soup url] unfolding plugin_like_def by blast
  obtain DA AJ RE SC CC' where
    c: "\<And>s. detect_custom_functionality E soup s = custom_delta DA AJ RE SC CC' s"
    using clike_detect_custom[of E soup] unfolding custom_like_def by blast
  show ?thesis by (simp add: p c plugin_delta_def custom_delta_def)
qed

text \<open>
  C7 as stated fails: on the page with a \<^verbatim>\<open>popsigns\<close> plugin script and a long inline
  script, the default order ends with the indicator of the plugin before the indicator of
  the script, the other order with the two exchanged, so the final states differ.
\<close>

theorem detector_order_counterexample:
  "detect_custom_functionality offline custom_page
     (detect_plugins_from_html offline custom_page ''https://example.com''
        (init ''https://example.com'' 5 False))
   \<noteq> detect_plugins_from_html offline custom_page ''https://example.com''
       (detect_custom_functionality offline custom_page (init ''https://example.com'' 5 False))"
proof
  assume "detect_custom_functionality offline custom_page
     (detect_plugins_from_html offline custom_page ''https://example.com''
        (init ''https://example.com'' 5 False))
   = detect_plugins_from_html offline custom_page ''https://example.com''
       (detect_custom_functionality offline custom_page (init ''https://example.com'' 5 False))"
  then have "custom_code_indicators
     (detect_custom_functionality offline custom_page
        (detect_plugins_from_html offline custom_page ''https://example.com''
           (init ''https://example.com'' 5 False)))
   = custom_code_indicators
     (detect_plugins_from_html offline custom_page ''https://example.com''
        (detect_custom_functionality offline custom_page (init ''https://example.com'' 5 False)))"
    by simp
  then show False
    unfolding custom_page_plugins_first custom_page_custom_first by simp
qed

subsection \<open>C8: capped sections of the report\<close>








lemma full_state_text:
  "data_attributes_section offline full_state =
     ''\<newline>\<newline>Custom Data Attributes:\<newline>- data-a=1\<newline>- data-b=2\<newline>- data-c=3\<newline>- data-d=4\<newline>- data-e=5\<newline>- data-f=6\<newline>- data-g=7\<newline>- data-h=8\<newline>- data-i=9\<newline>- data-j=10\<newline>- ... and 5 more''"
  by code_simp




subsection \<open>C9: sets and the list of indicators\<close>

text \<open>
  C9, as amended. Gutenberg blocks, custom post types, REST endpoints, shortcodes, custom
  data attributes and AJAX calls are sets: running the detectors a second time on the same
  page, which collects every value a second time, leaves each of them as it was. The
  custom code indicators are a list: the second run appends the indicators of the page
  once more.
\<close>

theorem auxiliary_sets_deduplicate:
  "gutenberg_blocks (run_detectors E soup url (run_detectors E soup url s))
     = gutenberg_blocks (run_detectors E soup url s)
   \<and> custom_post_types (run_detectors E soup url (run_detectors E soup url s))
     = custom_post_types (run_detectors E soup url s)
   \<and> rest_endpoints (run_detectors E soup url (run_detectors E soup url s))
     = rest_endpoints (run_detectors E soup url s)
   \<and> shortcodes (run_detectors E soup url (run_detectors E soup url s))
     = shortcodes (run_detectors E soup url s)
   \<and> custom_data_attributes (run_detectors E soup url (run_detectors E soup url s))
     = custom_data_attributes (run_detectors E soup url s)
   \<and> ajax_calls (run_detectors E soup url (run_detectors E soup url s))
     = ajax_calls (run_detectors E soup url s)
   \<and> (\<exists>found. custom_code_indicators (run_detectors E soup url s)
                  = custom_code_indicators s @ found
               \<and> custom_code_indicators (run_detectors E soup url (run_detectors E soup url s))
                  = custom_code_indicators s @ found @ found)"
proof -
  obtain PL CS GB PT CC where
    p: "\<And>s. detect_plugins_from_html E soup url s
             = plugin_delta PL (doc_theme_upd E soup) CS GB PT CC s"
    using like_detect_plugins[of E soup url] unfolding plugin_like_def by blast
  obtain DA AJ RE SC CC' where
    c: "\<And>s. detect_custom_functionality E soup s = custom_delta DA AJ RE SC CC' s"
    using clike_detect_custom[of E soup] unfolding custom_like_def by blast
  have "\<exists>found. custom_code_indicators (run_detectors E soup url s)
                  = custom_code_indicators s @ found
               \<and> custom_code_indicators (run_detectors E soup url (run_detectors E soup url s))
                  = custom_code_indicators s @ found @ found"
    by (rule exI[of _ "CC @ CC'"]) (simp add: run_detectors_def p c plugin_delta_def custom_delta_def)
  then show ?thesis
    by (simp add: run_detectors_def p c plugin_delta_def custom_delta_def Un_assoc)
qed

text \<open>
  C9 as stated fails for the custom code indicators: after two runs of the detectors on
  the page with the \<^verbatim>\<open>popsigns\<close> script, the list holds its indicator twice.
\<close>

theorem indicator_list_counterexample:
  "count_list
     (custom_code_indicators
        (run_detectors offline custom_page ''https://example.com''
           (run_detectors offline custom_page ''https://example.com''
              (init ''https://example.com'' 5 False))))
     ''Custom Plugin: popsigns'' = 2"
  by (simp add: run_detectors_def offline_def custom_page_def model_defs str_in_replicate strip_replicate)

subsection \<open>C10: the page count of the report\<close>

lemma header_prefix: "prefix (header_section s) (report_text E s)"
  by (simp add: report_text_def)

lemma derive_no_themes: "themes_detected s = {} \<Longrightarrow> derive_themes (demo_env site) s = s"
  by (simp add: derive_themes_def demo_env_def)

lemma shop_main:
  "main (demo_env shop_site) ''https://example.com'' 3 False False
   = Inr (report_text (demo_env shop_site) (self shop_final))"
  using shop_run
  by (simp add: main_def analyze_site_def generate_report_def derive_no_themes shop_final_def init_def)

text \<open>
  C10. The report begins with its header, and the \<^verbatim>\<open>Pages Analyzed\<close> line of the header
  shows the size of the visited set. The visited set also holds the URLs answered with a
  status other than 200, which no detector saw: the crawl of the shop with a budget of 3
  analyses 2 pages and reports 4.
\<close>

theorem pages_analyzed_counts_visited:
  "prefix (header_section s) (report_text E s)
   \<and> header_section s =
       ''\<newline>'' @ glyph_report @ '' **WooCommerce Website Analysis Report** '' @ glyph_report @ ''\<newline>''
       @ ''\<newline>Target Website: '' @ base_url s
       @ ''\<newline>Pages Analyzed: '' @ str_int (int (card (visited_urls s)))
   \<and> crawl_loop (demo_env shop_site) (start (init ''https://example.com'' 3 False)) = Inr shop_final
   \<and> main (demo_env shop_site) ''https://example.com'' 3 False False
       = Inr (report_text (demo_env shop_site) (self shop_final))
   \<and> max_pages (self shop_final) = 3
   \<and> pages_visited shop_final = 2
   \<and> card (visited_urls (self shop_final)) = 4
   \<and> header_section (self shop_final) =
       ''\<newline>'' @ glyph_report @ '' **WooCommerce Website Analysis Report** '' @ glyph_report @ ''\<newline>''
       @ ''\<newline>Target Website: https://example.com\<newline>Pages Analyzed: 4''"
proof -
  have h: "header_section (self shop_final) =
       ''\<newline>'' @ glyph_report @ '' **WooCommerce Website Analysis Report** '' @ glyph_report @ ''\<newline>''
       @ ''\<newline>Target Website: https://example.com\<newline>Pages Analyzed: 4''"
    by (simp add: header_section_def shop_final_def init_def str_int_def digit_def)
  have c: "max_pages (self shop_final) = 3" "pages_visited shop_final = 2"
    "card (visited_urls (self shop_final)) = 4"
    by (simp_all add: shop_final_def init_def)
  show ?thesis
    using shop_run shop_main header_prefix[of s E] h c
    by (simp only: header_section_def simp_thms)
qed

end
